theory Spec2Isabelle
  imports Complex_Main "HOL-Library.List_Lexorder" "HOL-Library.Char_ord"
begin

section \<open>JavaScript numbers\<close>

text \<open>
  A JavaScript number is a finite value, \<open>NaN\<close>, \<open>Infinity\<close> or \<open>-Infinity\<close>.
  The special values and the way they propagate through the operators are kept, and
  so is overflow: a finite result of an operation whose magnitude reaches
  \<open>2 ^ 1024 - 2 ^ 970\<close> is an infinity, as rounding to the nearest double has it.
  Below that a result is the exact real: the rounding to 53 bits and the sign of
  zero are left out.
\<close>

datatype number = Num real | NaN | PosInf | NegInf

definition overflow_bound :: real where
  "overflow_bound = 2 ^ 1024 - 2 ^ 970"

definition js_number :: "real \<Rightarrow> number" where
  "js_number x =
     (if overflow_bound \<le> x then PosInf
      else if x \<le> - overflow_bound then NegInf
      else Num x)"

fun isNaN :: "number \<Rightarrow> bool" where
  "isNaN NaN = True"
| "isNaN _ = False"

fun js_neg :: "number \<Rightarrow> number" where
  "js_neg (Num a) = Num (- a)"
| "js_neg NaN = NaN"
| "js_neg PosInf = NegInf"
| "js_neg NegInf = PosInf"

fun js_add :: "number \<Rightarrow> number \<Rightarrow> number" where
  "js_add (Num a) (Num b) = js_number (a + b)"
| "js_add NaN _ = NaN"
| "js_add _ NaN = NaN"
| "js_add PosInf NegInf = NaN"
| "js_add NegInf PosInf = NaN"
| "js_add PosInf _ = PosInf"
| "js_add _ PosInf = PosInf"
| "js_add NegInf _ = NegInf"
| "js_add _ NegInf = NegInf"

definition js_sub :: "number \<Rightarrow> number \<Rightarrow> number" where
  "js_sub a b = js_add a (js_neg b)"

fun js_mul :: "number \<Rightarrow> number \<Rightarrow> number" where
  "js_mul (Num a) (Num b) = js_number (a * b)"
| "js_mul NaN _ = NaN"
| "js_mul _ NaN = NaN"
| "js_mul (Num a) PosInf = (if a = 0 then NaN else if 0 < a then PosInf else NegInf)"
| "js_mul (Num a) NegInf = (if a = 0 then NaN else if 0 < a then NegInf else PosInf)"
| "js_mul PosInf (Num b) = (if b = 0 then NaN else if 0 < b then PosInf else NegInf)"
| "js_mul NegInf (Num b) = (if b = 0 then NaN else if 0 < b then NegInf else PosInf)"
| "js_mul PosInf PosInf = PosInf"
| "js_mul PosInf NegInf = NegInf"
| "js_mul NegInf PosInf = NegInf"
| "js_mul NegInf NegInf = PosInf"

fun js_div :: "number \<Rightarrow> number \<Rightarrow> number" where
  "js_div (Num a) (Num b) =
     (if b = 0 then (if a = 0 then NaN else if 0 < a then PosInf else NegInf)
      else js_number (a / b))"
| "js_div NaN _ = NaN"
| "js_div _ NaN = NaN"
| "js_div (Num a) _ = Num 0"
| "js_div PosInf (Num b) = (if 0 \<le> b then PosInf else NegInf)"
| "js_div NegInf (Num b) = (if 0 \<le> b then NegInf else PosInf)"
| "js_div _ _ = NaN"

fun js_lt :: "number \<Rightarrow> number \<Rightarrow> bool" where
  "js_lt (Num a) (Num b) = (a < b)"
| "js_lt NaN _ = False"
| "js_lt _ NaN = False"
| "js_lt _ NegInf = False"
| "js_lt PosInf _ = False"
| "js_lt _ _ = True"

fun Math_abs :: "number \<Rightarrow> number" where
  "Math_abs (Num a) = Num \<bar>a\<bar>"
| "Math_abs NaN = NaN"
| "Math_abs _ = PosInf"

fun Math_floor :: "number \<Rightarrow> number" where
  "Math_floor (Num a) = Num (of_int \<lfloor>a\<rfloor>)"
| "Math_floor x = x"

fun Math_ceil :: "number \<Rightarrow> number" where
  "Math_ceil (Num a) = Num (of_int \<lceil>a\<rceil>)"
| "Math_ceil x = x"

section \<open>The random source\<close>

text \<open>
  \<open>Math.random()\<close> reads a global generator. The model takes the sequence of its
  results as \<open>rnd\<close> and threads the position of the next draw; every result of
  \<open>Math.random()\<close> is at least 0 and below 1, which the theorems assume of \<open>rnd\<close>
  as \<open>unit_draws\<close>.
\<close>

type_synonym random_source = "nat \<Rightarrow> real"

definition Math_random :: "random_source \<Rightarrow> nat \<Rightarrow> real \<times> nat" where
  "Math_random rnd k = (rnd k, Suc k)"

definition unit_draws :: "random_source \<Rightarrow> bool" where
  "unit_draws rnd = (\<forall>k. 0 \<le> rnd k \<and> rnd k < 1)"

section \<open>Helper functions\<close>

definition getRandomFloat :: "random_source \<Rightarrow> number \<Rightarrow> number \<Rightarrow> nat \<Rightarrow> number \<times> nat" where
  "getRandomFloat rnd min_v max_v k =
     (let (r, k1) = Math_random rnd k
      in (js_add (js_mul (Num r) (js_sub max_v min_v)) min_v, k1))"

definition getRandomInt :: "random_source \<Rightarrow> number \<Rightarrow> number \<Rightarrow> nat \<Rightarrow> number \<times> nat" where
  "getRandomInt rnd min_v max_v k =
     (let min1 = Math_ceil min_v;
          max1 = Math_floor max_v;
          (r, k1) = Math_random rnd k
      in (js_add (Math_floor (js_mul (Num r) (js_add (js_sub max1 min1) (Num 1)))) min1, k1))"

section \<open>Dates of the host\<close>

text \<open>
  \<open>Date\<close> belongs to the JavaScript host, not to the repository; it is modelled
  after the ECMAScript definitions that \<open>new Date(string)\<close>, \<open>new Date(number)\<close>,
  \<open>getTime\<close> and \<open>toISOString\<close> rest on. A time value is a number of milliseconds
  since 1970-01-01T00:00:00Z, or \<open>NaN\<close> for an invalid date.
\<close>

datatype js_error = RangeError

definition msPerDay :: int where
  "msPerDay = 86400000"

definition Day :: "int \<Rightarrow> int" where
  "Day t = t div msPerDay"

definition TimeWithinDay :: "int \<Rightarrow> int" where
  "TimeWithinDay t = t mod msPerDay"

definition DaysInYear :: "int \<Rightarrow> int" where
  "DaysInYear y =
     (if y mod 4 \<noteq> 0 then 365 else if y mod 100 \<noteq> 0 then 366
      else if y mod 400 \<noteq> 0 then 365 else 366)"

definition DayFromYear :: "int \<Rightarrow> int" where
  "DayFromYear y =
     365 * (y - 1970) + (y - 1969) div 4 - (y - 1901) div 100 + (y - 1601) div 400"

text \<open>
  ECMAScript takes as the year of a day the largest \<open>y\<close> with \<open>DayFromYear y\<close> at most
  that day. It is computed from the mean length of a year (146097 days in 400 years)
  and corrected by one year either way.
\<close>

definition year_of_day :: "int \<Rightarrow> int" where
  "year_of_day d =
     (let c = 1970 + (400 * d) div 146097
      in if d < DayFromYear c then c - 1
         else if DayFromYear (c + 1) \<le> d then c + 1
         else c)"

definition YearFromTime :: "int \<Rightarrow> int" where
  "YearFromTime t = year_of_day (Day t)"

definition InLeapYear :: "int \<Rightarrow> int" where
  "InLeapYear t = (if DaysInYear (YearFromTime t) = 366 then 1 else 0)"

definition DayWithinYear :: "int \<Rightarrow> int" where
  "DayWithinYear t = Day t - DayFromYear (YearFromTime t)"

text \<open>The first day of month \<open>m\<close> (0 is January) within a year, \<open>l\<close> being 1 in a leap year.\<close>

definition month_start :: "int \<Rightarrow> int \<Rightarrow> int" where
  "month_start l m =
     (if m \<le> 0 then 0 else if m = 1 then 31 else if m = 2 then 59 + l
      else if m = 3 then 90 + l else if m = 4 then 120 + l else if m = 5 then 151 + l
      else if m = 6 then 181 + l else if m = 7 then 212 + l else if m = 8 then 243 + l
      else if m = 9 then 273 + l else if m = 10 then 304 + l else if m = 11 then 334 + l
      else 365 + l)"

definition month_of_day :: "int \<Rightarrow> int \<Rightarrow> int" where
  "month_of_day l d =
     (if d < 31 then 0 else if d < 59 + l then 1 else if d < 90 + l then 2
      else if d < 120 + l then 3 else if d < 151 + l then 4 else if d < 181 + l then 5
      else if d < 212 + l then 6 else if d < 243 + l then 7 else if d < 273 + l then 8
      else if d < 304 + l then 9 else if d < 334 + l then 10 else 11)"

definition MonthFromTime :: "int \<Rightarrow> int" where
  "MonthFromTime t = month_of_day (InLeapYear t) (DayWithinYear t)"

definition DateFromTime :: "int \<Rightarrow> int" where
  "DateFromTime t = DayWithinYear t - month_start (InLeapYear t) (MonthFromTime t) + 1"

definition HourFromTime :: "int \<Rightarrow> int" where
  "HourFromTime t = (t div 3600000) mod 24"

definition MinFromTime :: "int \<Rightarrow> int" where
  "MinFromTime t = (t div 60000) mod 60"

definition SecFromTime :: "int \<Rightarrow> int" where
  "SecFromTime t = (t div 1000) mod 60"

definition msFromTime :: "int \<Rightarrow> int" where
  "msFromTime t = t mod 1000"

text \<open>\<open>MakeDay\<close> for a month within the year (0 to 11), which is all the parser needs.\<close>

definition MakeDay :: "int \<Rightarrow> int \<Rightarrow> int \<Rightarrow> int" where
  "MakeDay y m dt =
     DayFromYear y + month_start (if DaysInYear y = 366 then 1 else 0) m + dt - 1"

definition MakeDate :: "int \<Rightarrow> int \<Rightarrow> int" where
  "MakeDate day time = day * msPerDay + time"

definition DaysInMonth :: "int \<Rightarrow> int \<Rightarrow> int" where
  "DaysInMonth y m =
     (let l = (if DaysInYear y = 366 then 1 else 0)
      in month_start l (m + 1) - month_start l m)"

fun TimeClip :: "number \<Rightarrow> number" where
  "TimeClip (Num t) =
     (if 8640000000000000 < \<bar>t\<bar> then NaN
      else Num (of_int (if 0 \<le> t then \<lfloor>t\<rfloor> else \<lceil>t\<rceil>)))"
| "TimeClip _ = NaN"

subsection \<open>Decimal digits\<close>

definition digit_char :: "nat \<Rightarrow> char" where
  "digit_char n = char_of (48 + n)"

definition is_digit :: "char \<Rightarrow> bool" where
  "is_digit c = (48 \<le> (of_char c :: nat) \<and> (of_char c :: nat) \<le> 57)"

definition digit_val :: "char \<Rightarrow> nat" where
  "digit_val c = of_char c - 48"

text \<open>\<open>pad w n\<close>: the last \<open>w\<close> decimal digits of \<open>n\<close>, zero-padded, most significant first.\<close>

fun pad :: "nat \<Rightarrow> nat \<Rightarrow> string" where
  "pad 0 n = []"
| "pad (Suc w) n = digit_char ((n div 10 ^ w) mod 10) # pad w n"

subsection \<open>Parsing\<close>

text \<open>
  The date-only form \<open>YYYY-MM-DD\<close> of the ECMAScript date-time string format, read as
  UTC midnight. The fields of a string of that shape:
\<close>

fun iso_date_fields :: "string \<Rightarrow> (int \<times> int \<times> int) option" where
  "iso_date_fields [y1, y2, y3, y4, s1, m1, m2, s2, d1, d2] =
     (if is_digit y1 \<and> is_digit y2 \<and> is_digit y3 \<and> is_digit y4 \<and> s1 = CHR ''-''
         \<and> is_digit m1 \<and> is_digit m2 \<and> s2 = CHR ''-'' \<and> is_digit d1 \<and> is_digit d2
      then Some (int (1000 * digit_val y1 + 100 * digit_val y2 + 10 * digit_val y3 + digit_val y4),
                 int (10 * digit_val m1 + digit_val m2),
                 int (10 * digit_val d1 + digit_val d2))
      else None)"
| "iso_date_fields _ = None"

text \<open>
  \<open>calendar_date s\<close> gives year, month (1 to 12) and day of a string that is a date
  of the calendar in the form \<open>YYYY-MM-DD\<close>, and \<open>None\<close> for every other string.
\<close>

definition calendar_date :: "string \<Rightarrow> (int \<times> int \<times> int) option" where
  "calendar_date s =
     (case iso_date_fields s of
        None \<Rightarrow> None
      | Some (y, m, d) \<Rightarrow>
          if 1 \<le> m \<and> m \<le> 12 \<and> 1 \<le> d \<and> d \<le> DaysInMonth y (m - 1) then Some (y, m, d)
          else None)"

text \<open>
  What a host does with a string that is not such a date (another form of the format,
  a day the month does not have, free text) is left to the host by ECMAScript: the
  model takes it as the parameter \<open>host_parse\<close>.
\<close>

definition Date_parse :: "(string \<Rightarrow> number) \<Rightarrow> string \<Rightarrow> number" where
  "Date_parse host_parse s =
     (case calendar_date s of
        Some (y, m, d) \<Rightarrow> Num (of_int (MakeDate (MakeDay y (m - 1) d) 0))
      | None \<Rightarrow> host_parse s)"

datatype Date = Date (getTime: number)

definition Date_of_string :: "(string \<Rightarrow> number) \<Rightarrow> string \<Rightarrow> Date" where
  "Date_of_string host_parse s = Date (TimeClip (Date_parse host_parse s))"

definition Date_of_number :: "number \<Rightarrow> Date" where
  "Date_of_number n = Date (TimeClip n)"

subsection \<open>Formatting\<close>

definition year_string :: "int \<Rightarrow> string" where
  "year_string y =
     (if 0 \<le> y \<and> y \<le> 9999 then pad 4 (nat y)
      else (if y < 0 then CHR ''-'' else CHR ''+'') # pad 6 (nat \<bar>y\<bar>))"

definition date_string :: "int \<Rightarrow> string" where
  "date_string t =
     year_string (YearFromTime t) @ ''-'' @ pad 2 (nat (MonthFromTime t + 1)) @ ''-''
       @ pad 2 (nat (DateFromTime t))"

definition time_string :: "int \<Rightarrow> string" where
  "time_string t =
     pad 2 (nat (HourFromTime t)) @ '':'' @ pad 2 (nat (MinFromTime t)) @ '':''
       @ pad 2 (nat (SecFromTime t)) @ ''.'' @ pad 3 (nat (msFromTime t)) @ ''Z''"

text \<open>\<open>toISOString\<close> throws a \<open>RangeError\<close> on an invalid date.\<close>

fun toISOString :: "Date \<Rightarrow> js_error + string" where
  "toISOString (Date (Num t)) = Inr (date_string \<lfloor>t\<rfloor> @ ''T'' @ time_string \<lfloor>t\<rfloor>)"
| "toISOString (Date _) = Inl RangeError"

text \<open>\<open>s.split('T')[0]\<close>: the part of \<open>s\<close> before its first \<open>T\<close>, all of \<open>s\<close> when it has none.\<close>

definition split_T_0 :: "string \<Rightarrow> string" where
  "split_T_0 s = takeWhile (\<lambda>c. c \<noteq> CHR ''T'') s"

section \<open>Data generation\<close>

record geometry =
  gtype :: string
  coordinates :: "number list"

record properties =
  intensity :: number
  trend :: "string option"
  prediction :: "string option"
  date :: string

record feature =
  ftype :: string
  geometry :: geometry
  properties :: properties

record feature_collection =
  ctype :: string
  features :: "feature list"

text \<open>
  Reading an array at a number: the element when the number is an index of the array,
  \<open>undefined\<close> (here \<open>None\<close>) otherwise.
\<close>

fun js_index :: "'a list \<Rightarrow> number \<Rightarrow> 'a option" where
  "js_index xs (Num a) =
     (if a = of_int \<lfloor>a\<rfloor> \<and> 0 \<le> a \<and> a < of_nat (length xs) then Some (xs ! nat \<lfloor>a\<rfloor>)
      else None)"
| "js_index xs _ = None"

text \<open>
  One pass through the body of the loop of \<open>generateBloomData\<close>: six draws, then the
  feature, or the error that \<open>toISOString\<close> throws.
\<close>

definition new_feature ::
  "random_source \<Rightarrow> number \<Rightarrow> number \<Rightarrow> number \<Rightarrow> number \<Rightarrow> Date \<Rightarrow> Date \<Rightarrow> nat
     \<Rightarrow> (js_error + feature) \<times> nat" where
  "new_feature rnd minLat maxLat minLon maxLon startDate endDate k =
     (let (pointLat, k1) = getRandomFloat rnd minLat maxLat k;
          (pointLon, k2) = getRandomFloat rnd minLon maxLon k1;
          (randomTimestamp, k3) = getRandomInt rnd (getTime startDate) (getTime endDate) k2;
          randomDate = Date_of_number randomTimestamp;
          latitudeFactor = js_div (js_sub (Num 90) (Math_abs pointLat)) (Num 90);
          (r, k4) = Math_random rnd k3;
          intensity_v = js_mul (Num r) latitudeFactor;
          (trend_i, k5) = getRandomInt rnd (Num 0) (Num 2) k4;
          (prediction_i, k6) = getRandomInt rnd (Num 0) (Num 3) k5
      in case toISOString randomDate of
           Inl e \<Rightarrow> (Inl e, k6)
         | Inr iso_s \<Rightarrow>
             (Inr \<lparr>ftype = ''Feature'',
                   geometry = \<lparr>gtype = ''Point'', coordinates = [pointLon, pointLat]\<rparr>,
                   properties =
                     \<lparr>intensity = intensity_v,
                      trend = js_index [''earlier'', ''stable'', ''later''] trend_i,
                      prediction =
                        js_index [''significant'', ''moderate'', ''slight'', ''no_change'']
                          prediction_i,
                      date = split_T_0 iso_s\<rparr>\<rparr>,
              k6))"

text \<open>
  The loop \<open>for (let i = 0; i < numberOfPoints; i++)\<close>, from \<open>i\<close> on. The bound is a
  number, so the definition does not presuppose that the loop ends: \<open>None\<close> stands
  for a loop that does not return.
\<close>

partial_function (option) bloom_loop ::
  "random_source \<Rightarrow> number \<Rightarrow> number \<Rightarrow> number \<Rightarrow> number \<Rightarrow> Date \<Rightarrow> Date \<Rightarrow> number
     \<Rightarrow> nat \<Rightarrow> feature list \<Rightarrow> nat \<Rightarrow> ((js_error + feature list) \<times> nat) option" where
  "bloom_loop rnd minLat maxLat minLon maxLon startDate endDate numberOfPoints i fs k =
     (if js_lt (Num (real i)) numberOfPoints then
        (case new_feature rnd minLat maxLat minLon maxLon startDate endDate k of
           (Inl e, k1) \<Rightarrow> Some (Inl e, k1)
         | (Inr f, k1) \<Rightarrow>
             bloom_loop rnd minLat maxLat minLon maxLon startDate endDate numberOfPoints
               (Suc i) (fs @ [f]) k1)
      else Some (Inr fs, k))"

declare bloom_loop.simps [code]

definition generateBloomData ::
  "(string \<Rightarrow> number) \<Rightarrow> random_source \<Rightarrow> number \<Rightarrow> number \<Rightarrow> number \<Rightarrow> string \<Rightarrow> string \<Rightarrow> nat
     \<Rightarrow> ((js_error + feature_collection) \<times> nat) option" where
  "generateBloomData host_parse rnd lat lon radius startDateStr endDateStr k =
     (let (numberOfPoints, k0) = getRandomInt rnd (Num 150) (Num 350) k;
          minLat = js_sub lat radius;
          maxLat = js_add lat radius;
          minLon = js_sub lon radius;
          maxLon = js_add lon radius;
          startDate = Date_of_string host_parse startDateStr;
          endDate = Date_of_string host_parse endDateStr
      in case bloom_loop rnd minLat maxLat minLon maxLon startDate endDate numberOfPoints 0 [] k0 of
           None \<Rightarrow> None
         | Some (Inl e, k1) \<Rightarrow> Some (Inl e, k1)
         | Some (Inr fs, k1) \<Rightarrow> Some (Inr \<lparr>ctype = ''FeatureCollection'', features = fs\<rparr>, k1))"

section \<open>The route \<open>GET /api/bloom-data\<close>\<close>

subsection \<open>\<open>parseFloat\<close>\<close>

text \<open>
  \<open>parseFloat\<close> of the host, after ECMAScript: leading white space is dropped, the
  longest prefix that is a decimal literal (\<open>StrDecimalLiteral\<close>) is read, and the
  result is \<open>NaN\<close> when there is none. Strings are ASCII here.
\<close>

definition is_space :: "char \<Rightarrow> bool" where
  "is_space c = ((of_char c :: nat) \<in> {9, 10, 11, 12, 13, 32})"

definition digits_value :: "string \<Rightarrow> nat" where
  "digits_value ds = foldl (\<lambda>a c. 10 * a + digit_val c) 0 ds"

definition scale10 :: "real \<Rightarrow> int \<Rightarrow> real" where
  "scale10 x e = (if 0 \<le> e then x * 10 ^ nat e else x / 10 ^ nat (- e))"

text \<open>The exponent part at the head of a string, 0 when there is none.\<close>

definition exponent_part :: "string \<Rightarrow> int" where
  "exponent_part cs =
     (case cs of
        [] \<Rightarrow> 0
      | c # r \<Rightarrow>
          if c = CHR ''e'' \<or> c = CHR ''E'' then
            (case r of
               [] \<Rightarrow> 0
             | s # r1 \<Rightarrow>
                 if s = CHR ''+'' then int (digits_value (takeWhile is_digit r1))
                 else if s = CHR ''-'' then - int (digits_value (takeWhile is_digit r1))
                 else int (digits_value (takeWhile is_digit r)))
          else 0)"

definition unsigned_literal :: "string \<Rightarrow> number" where
  "unsigned_literal cs =
     (if take 8 cs = ''Infinity'' then PosInf
      else
        let ip = takeWhile is_digit cs;
            r1 = dropWhile is_digit cs;
            dot = (case r1 of [] \<Rightarrow> False | c # _ \<Rightarrow> c = CHR ''.'');
            fp = (if dot then takeWhile is_digit (tl r1) else []);
            r2 = (if dot then dropWhile is_digit (tl r1) else r1)
        in if ip = [] \<and> fp = [] then NaN
           else js_number (scale10 (real (digits_value ip)
                        + real (digits_value fp) / 10 ^ length fp) (exponent_part r2)))"

definition parseFloat :: "string \<Rightarrow> number" where
  "parseFloat s =
     (case dropWhile is_space s of
        [] \<Rightarrow> NaN
      | c # r \<Rightarrow>
          if c = CHR ''+'' then unsigned_literal r
          else if c = CHR ''-'' then js_neg (unsigned_literal r)
          else unsigned_literal (c # r))"

subsection \<open>The handler\<close>

datatype body = ErrorBody string | DataBody feature_collection

record response =
  status :: nat
  body :: body

text \<open>
  The query of a request: a parameter is absent (\<open>undefined\<close>) or a string. \<open>!v\<close> holds
  of \<open>undefined\<close> and of the empty string.
\<close>

type_synonym query = "string \<rightharpoonup> string"

definition falsy :: "string option \<Rightarrow> bool" where
  "falsy v = (case v of None \<Rightarrow> True | Some s \<Rightarrow> s = [])"

definition missing_parameters :: response where
  "missing_parameters =
     \<lparr>status = 400,
      body = ErrorBody
        ''Missing required query parameters. Required: lat, lon, radius, startDate, endDate.''\<rparr>"

definition invalid_parameters :: response where
  "invalid_parameters =
     \<lparr>status = 400,
      body = ErrorBody ''Invalid geographic parameters. lat, lon, and radius must be numbers.''\<rparr>"

text \<open>
  The handler answers with a response, or an error of the generator escapes it. What
  it writes to the console is left out.
\<close>

definition bloom_data_route ::
  "(string \<Rightarrow> number) \<Rightarrow> random_source \<Rightarrow> query \<Rightarrow> nat \<Rightarrow> ((js_error + response) \<times> nat) option" where
  "bloom_data_route host_parse rnd q k =
     (case (q ''lat'', q ''lon'', q ''radius'', q ''startDate'', q ''endDate'') of
        (Some lat, Some lon, Some radius, Some startDate, Some endDate) \<Rightarrow>
          if falsy (Some lat) \<or> falsy (Some lon) \<or> falsy (Some radius)
               \<or> falsy (Some startDate) \<or> falsy (Some endDate)
          then Some (Inr missing_parameters, k)
          else
            let latNum = parseFloat lat;
                lonNum = parseFloat lon;
                radiusNum = parseFloat radius
            in if isNaN latNum \<or> isNaN lonNum \<or> isNaN radiusNum
               then Some (Inr invalid_parameters, k)
               else (case generateBloomData host_parse rnd latNum lonNum radiusNum
                            startDate endDate k of
                       None \<Rightarrow> None
                     | Some (Inl e, k1) \<Rightarrow> Some (Inl e, k1)
                     | Some (Inr data, k1) \<Rightarrow> Some (Inr \<lparr>status = 200, body = DataBody data\<rparr>, k1))
      | _ \<Rightarrow> Some (Inr missing_parameters, k))"

section \<open>Properties of the helpers and of the loop\<close>

lemma overflow_bound_large: "2 * 2 ^ 1022 < overflow_bound" "1000000000000000000 < overflow_bound"
  by (simp_all add: overflow_bound_def)

lemma js_number_finite: "\<bar>x\<bar> < overflow_bound \<Longrightarrow> js_number x = Num x"
  by (auto simp: js_number_def abs_less_iff)

lemma js_number_small: "\<bar>x\<bar> \<le> 1000000000000000000 \<Longrightarrow> js_number x = Num x"
  using overflow_bound_large(2) by (intro js_number_finite) linarith

lemma js_number_overflow:
  "overflow_bound \<le> x \<Longrightarrow> js_number x = PosInf"
  by (simp add: js_number_def)

lemma getRandomFloat_eq:
  "getRandomFloat rnd lo hi k = (js_add (js_mul (Num (rnd k)) (js_sub hi lo)) lo, Suc k)"
  by (simp add: getRandomFloat_def Math_random_def)

lemma getRandomInt_eq:
  "getRandomInt rnd lo hi k =
     (js_add (Math_floor (js_mul (Num (rnd k))
        (js_add (js_sub (Math_floor hi) (Math_ceil lo)) (Num 1)))) (Math_ceil lo), Suc k)"
  by (simp add: getRandomInt_def Math_random_def Let_def)

lemma new_feature_draws: "snd (new_feature rnd a b c d s e k) = k + 6"
  unfolding new_feature_def getRandomFloat_eq getRandomInt_eq Math_random_def Let_def prod.case
  by (simp split: sum.split)

lemma loop_test: "real i < n \<longleftrightarrow> i < nat \<lceil>n\<rceil>"
proof -
  have "real i < n \<longleftrightarrow> of_int (int i) < n" by simp
  also have "\<dots> \<longleftrightarrow> int i < \<lceil>n\<rceil>" by (rule less_ceiling_iff [symmetric])
  also have "\<dots> \<longleftrightarrow> i < nat \<lceil>n\<rceil>" by (rule zless_nat_eq_int_zless [symmetric])
  finally show ?thesis .
qed

lemma bloom_loop_returns:
  "\<exists>r j. bloom_loop rnd a b c d s e (Num n) i fs k = Some (r, k + 6 * j) \<and> j \<le> nat \<lceil>n\<rceil> - i"
proof (induction "nat \<lceil>n\<rceil> - i" arbitrary: i fs k)
  case 0
  then have "\<not> i < nat \<lceil>n\<rceil>" by linarith
  then have "bloom_loop rnd a b c d s e (Num n) i fs k = Some (Inr fs, k + 6 * 0)"
    by (subst bloom_loop.simps) (simp add: loop_test)
  then show ?case by blast
next
  case (Suc m)
  then have lt: "i < nat \<lceil>n\<rceil>" and m: "m = nat \<lceil>n\<rceil> - Suc i" by simp_all
  obtain r k1 where nf: "new_feature rnd a b c d s e k = (r, k1)"
    by (cases "new_feature rnd a b c d s e k")
  with new_feature_draws [of rnd a b c d s e k] have k1: "k1 = k + 6" by simp
  show ?case
  proof (cases r)
    case (Inl err)
    with lt nf k1 have "bloom_loop rnd a b c d s e (Num n) i fs k = Some (Inl err, k + 6 * 1)"
      by (subst bloom_loop.simps) (simp add: loop_test)
    moreover from lt have "1 \<le> nat \<lceil>n\<rceil> - i" by simp
    ultimately show ?thesis by blast
  next
    case (Inr f)
    from Suc.hyps(1) [OF m, of "fs @ [f]" k1] obtain r2 j where
      rec: "bloom_loop rnd a b c d s e (Num n) (Suc i) (fs @ [f]) k1 = Some (r2, k1 + 6 * j)"
      and j: "j \<le> nat \<lceil>n\<rceil> - Suc i" by blast
    from lt nf Inr rec k1 have "bloom_loop rnd a b c d s e (Num n) i fs k = Some (r2, k + 6 * Suc j)"
      by (subst bloom_loop.simps) (simp add: loop_test)
    moreover from j lt have "Suc j \<le> nat \<lceil>n\<rceil> - i" by simp
    ultimately show ?thesis by blast
  qed
qed

lemma bloom_loop_features:
  assumes step: "\<And>k f k1. new_feature rnd a b c d s e k = (Inr f, k1) \<Longrightarrow> Q f"
  shows "bloom_loop rnd a b c d s e (Num n) i fs k = Some (Inr fs1, k1) \<Longrightarrow> list_all Q fs
    \<Longrightarrow> list_all Q fs1 \<and> length fs1 = length fs + (nat \<lceil>n\<rceil> - i) \<and> k1 = k + 6 * (nat \<lceil>n\<rceil> - i)"
proof (induction "nat \<lceil>n\<rceil> - i" arbitrary: i fs k)
  case 0
  then have "\<not> i < nat \<lceil>n\<rceil>" by linarith
  with 0 show ?case
    by (subst (asm) bloom_loop.simps) (simp add: loop_test)
next
  case (Suc m)
  then have lt: "i < nat \<lceil>n\<rceil>" and m: "m = nat \<lceil>n\<rceil> - Suc i" by simp_all
  obtain r k2 where nf: "new_feature rnd a b c d s e k = (r, k2)" by (cases "new_feature rnd a b c d s e k")
  with new_feature_draws [of rnd a b c d s e k] have k2: "k2 = k + 6" by simp
  show ?case
  proof (cases r)
    case (Inl err)
    with lt nf Suc.prems(1) show ?thesis
      by (subst (asm) bloom_loop.simps) (simp add: loop_test)
  next
    case (Inr f)
    with lt nf Suc.prems(1) have
      rec: "bloom_loop rnd a b c d s e (Num n) (Suc i) (fs @ [f]) k2 = Some (Inr fs1, k1)"
      by (subst (asm) bloom_loop.simps) (simp add: loop_test)
    from step nf Inr have "Q f" by simp
    with Suc.prems(2) have "list_all Q (fs @ [f])" by simp
    moreover have "Suc (nat \<lceil>n\<rceil> - Suc i) = nat \<lceil>n\<rceil> - i" using lt by arith
    moreover have "6 + 6 * (nat \<lceil>n\<rceil> - Suc i) = 6 * (nat \<lceil>n\<rceil> - i)" using lt by arith
    ultimately show ?thesis
      using Suc.hyps(1) [OF m rec] k2 by simp
  qed
qed

lemma unit_drawsD: "unit_draws rnd \<Longrightarrow> 0 \<le> rnd k \<and> rnd k < 1"
  by (simp add: unit_draws_def)

lemma floor_scaled_draw:
  assumes "0 \<le> (r::real)" "r < 1" "0 < n"
  shows "0 \<le> \<lfloor>r * of_int n\<rfloor> \<and> \<lfloor>r * of_int n\<rfloor> < n"
proof -
  have "0 \<le> r * of_int n" using assms by simp
  moreover have "r * of_int n < of_int n" using assms by simp
  ultimately show ?thesis by (simp add: floor_less_iff)
qed

lemma new_feature_eq:
  "new_feature rnd minLat maxLat minLon maxLon s e k =
     (case toISOString (Date_of_number (fst (getRandomInt rnd (getTime s) (getTime e) (k + 2)))) of
        Inl err \<Rightarrow> (Inl err, k + 6)
      | Inr iso_s \<Rightarrow>
          (Inr \<lparr>ftype = ''Feature'',
                geometry = \<lparr>gtype = ''Point'',
                   coordinates = [fst (getRandomFloat rnd minLon maxLon (k + 1)),
                                  fst (getRandomFloat rnd minLat maxLat k)]\<rparr>,
                properties =
                  \<lparr>intensity = js_mul (Num (rnd (k + 3)))
                      (js_div (js_sub (Num 90) (Math_abs (fst (getRandomFloat rnd minLat maxLat k))))
                         (Num 90)),
                   trend = js_index [''earlier'', ''stable'', ''later'']
                      (fst (getRandomInt rnd (Num 0) (Num 2) (k + 4))),
                   prediction = js_index [''significant'', ''moderate'', ''slight'', ''no_change'']
                      (fst (getRandomInt rnd (Num 0) (Num 3) (k + 5))),
                   date = split_T_0 iso_s\<rparr>\<rparr>,
           k + 6))"
  by (simp add: new_feature_def getRandomFloat_eq getRandomInt_eq Math_random_def Let_def
      numeral_eq_Suc split: sum.split)

text \<open>Between bounds of the size of a time value nothing in \<open>getRandomInt\<close> overflows.\<close>

lemma getRandomInt_finite:
  assumes r: "0 \<le> rnd k" "rnd k < 1" and a: "\<bar>a\<bar> \<le> 10000000000000000" and b: "\<bar>b\<bar> \<le> 10000000000000000"
  shows "getRandomInt rnd (Num a) (Num b) k =
     (Num (of_int (\<lfloor>rnd k * of_int (\<lfloor>b\<rfloor> - \<lceil>a\<rceil> + 1)\<rfloor> + \<lceil>a\<rceil>)), Suc k)"
proof -
  define lo where "lo = real_of_int \<lceil>a\<rceil>"
  define hi where "hi = real_of_int \<lfloor>b\<rfloor>"
  define n where "n = hi - lo + 1"
  define m where "m = real_of_int \<lfloor>rnd k * n\<rfloor>"
  have lo: "\<bar>lo\<bar> \<le> 10000000000000000 + 1" using a unfolding lo_def by linarith
  have hi: "\<bar>hi\<bar> \<le> 10000000000000000 + 1" using b unfolding hi_def by linarith
  from lo hi have n: "\<bar>n\<bar> \<le> 3 * 10000000000000000" unfolding n_def by linarith
  have "\<bar>rnd k * n\<bar> = rnd k * \<bar>n\<bar>" using r(1) by (simp add: abs_mult)
  also have "\<dots> \<le> 1 * \<bar>n\<bar>" by (rule mult_right_mono) (use r(2) in simp_all)
  finally have rn: "\<bar>rnd k * n\<bar> \<le> 3 * 10000000000000000" using n by simp
  then have m: "\<bar>m\<bar> \<le> 3 * 10000000000000000 + 1" unfolding m_def by linarith
  have s1: "js_number (hi - lo) = Num (hi - lo)"
    by (rule js_number_small) (use lo hi in linarith)
  have s2: "js_number (hi - lo + 1) = Num n"
    unfolding n_def by (rule js_number_small) (use lo hi in linarith)
  have s3: "js_number (rnd k * n) = Num (rnd k * n)"
    by (rule js_number_small) (use rn in linarith)
  have s4: "js_number (m + lo) = Num (m + lo)"
    by (rule js_number_small) (use m lo in linarith)
  have "getRandomInt rnd (Num a) (Num b) k = (Num (m + lo), Suc k)"
    by (simp add: getRandomInt_eq js_sub_def s1 s2 s3 s4 flip: lo_def hi_def m_def)
  then show ?thesis
    by (simp add: m_def lo_def n_def hi_def)
qed

lemma numberOfPoints_eq:
  assumes "0 \<le> rnd k" "rnd k < 1"
  shows "getRandomInt rnd (Num 150) (Num 350) k
    = (Num (of_int (\<lfloor>rnd k * 201\<rfloor> + 150)), Suc k)"
  using getRandomInt_finite [of rnd k 150 350, OF assms] by simp

lemma getRandomInt_range:
  assumes "0 \<le> (r::real)" "r < 1" "\<lceil>a\<rceil> \<le> \<lfloor>b\<rfloor>"
  shows "\<lceil>a\<rceil> \<le> \<lfloor>r * of_int (\<lfloor>b\<rfloor> - \<lceil>a\<rceil> + 1)\<rfloor> + \<lceil>a\<rceil>
    \<and> \<lfloor>r * of_int (\<lfloor>b\<rfloor> - \<lceil>a\<rceil> + 1)\<rfloor> + \<lceil>a\<rceil> \<le> \<lfloor>b\<rfloor>"
proof -
  from assms(3) have "0 < \<lfloor>b\<rfloor> - \<lceil>a\<rceil> + 1" by simp
  from floor_scaled_draw [OF assms(1,2) this] show ?thesis by linarith
qed

lemma new_feature_categories:
  assumes "unit_draws rnd" "new_feature rnd a b c d s e k = (Inr f, k1)"
  shows "trend (properties f) \<in> {Some ''earlier'', Some ''stable'', Some ''later''}"
    and "prediction (properties f)
          \<in> {Some ''significant'', Some ''moderate'', Some ''slight'', Some ''no_change''}"
proof -
  define t where "t = \<lfloor>rnd (k + 4) * 3\<rfloor>"
  define p where "p = \<lfloor>rnd (k + 5) * 4\<rfloor>"
  from assms(1) have "0 \<le> t \<and> t \<le> 2" "0 \<le> p \<and> p \<le> 3"
    using getRandomInt_range [of "rnd (k + 4)" 0 2] getRandomInt_range [of "rnd (k + 5)" 0 3]
    by (simp_all add: t_def p_def unit_drawsD)
  then have t: "t = 0 \<or> t = 1 \<or> t = 2" and p: "p = 0 \<or> p = 1 \<or> p = 2 \<or> p = 3" by arith+
  from assms(2) have
    tr: "trend (properties f) = js_index [''earlier'', ''stable'', ''later''] (Num (of_int t))" and
    pr: "prediction (properties f)
          = js_index [''significant'', ''moderate'', ''slight'', ''no_change''] (Num (of_int p))"
    by (auto simp: new_feature_eq getRandomInt_finite unit_drawsD [OF assms(1)] t_def p_def
        split: sum.splits)
  from t show "trend (properties f) \<in> {Some ''earlier'', Some ''stable'', Some ''later''}"
    unfolding tr by auto
  from p show "prediction (properties f)
      \<in> {Some ''significant'', Some ''moderate'', Some ''slight'', Some ''no_change''}"
    unfolding pr by auto
qed

lemma generateBloomData_eq:
  assumes "unit_draws rnd"
  shows "generateBloomData hp rnd lat lon radius s e k =
     (case bloom_loop rnd (js_sub lat radius) (js_add lat radius) (js_sub lon radius)
             (js_add lon radius) (Date_of_string hp s) (Date_of_string hp e)
             (Num (of_int (\<lfloor>rnd k * 201\<rfloor> + 150))) 0 [] (Suc k) of
        None \<Rightarrow> None
      | Some (Inl err, k1) \<Rightarrow> Some (Inl err, k1)
      | Some (Inr fs, k1) \<Rightarrow> Some (Inr \<lparr>ctype = ''FeatureCollection'', features = fs\<rparr>, k1))"
  using assms by (simp add: generateBloomData_def numberOfPoints_eq unit_drawsD Let_def)

lemma generateBloomData_features:
  assumes ud: "unit_draws rnd"
    and step: "\<And>j f j1. new_feature rnd (js_sub lat radius) (js_add lat radius)
        (js_sub lon radius) (js_add lon radius) (Date_of_string hp s) (Date_of_string hp e) j
        = (Inr f, j1) \<Longrightarrow> Q f"
    and ret: "generateBloomData hp rnd lat lon radius s e k = Some (Inr fc, k1)"
  shows "list_all Q (features fc)"
    and "length (features fc) = nat (\<lfloor>rnd k * 201\<rfloor> + 150)"
    and "k1 = k + 1 + 6 * length (features fc)"
    and "ctype fc = ''FeatureCollection''"
proof -
  from ret obtain fs where
    loop: "bloom_loop rnd (js_sub lat radius) (js_add lat radius) (js_sub lon radius)
             (js_add lon radius) (Date_of_string hp s) (Date_of_string hp e)
             (Num (of_int (\<lfloor>rnd k * 201\<rfloor> + 150))) 0 [] (Suc k) = Some (Inr fs, k1)"
    and fc: "fc = \<lparr>ctype = ''FeatureCollection'', features = fs\<rparr>"
    by (auto simp: generateBloomData_eq [OF ud] split: option.splits sum.splits)
  from bloom_loop_features [where Q = Q, OF step loop]
  have "list_all Q fs \<and> length fs = nat (\<lfloor>rnd k * 201\<rfloor> + 150)
      \<and> k1 = Suc k + 6 * nat (\<lfloor>rnd k * 201\<rfloor> + 150)"
    by simp
  with fc show "list_all Q (features fc)"
    and "length (features fc) = nat (\<lfloor>rnd k * 201\<rfloor> + 150)"
    and "k1 = k + 1 + 6 * length (features fc)"
    and "ctype fc = ''FeatureCollection''"
    by simp_all
qed

lemma TimeClip_cases:
  "TimeClip n = NaN \<or> (\<exists>z. TimeClip n = Num (of_int z) \<and> \<bar>z\<bar> \<le> 8640000000000000)"
proof (cases n)
  case (Num t)
  show ?thesis
  proof (cases "8640000000000000 < \<bar>t\<bar>")
    case True
    with Num show ?thesis by simp
  next
    case False
    then have up: "t \<le> 8640000000000000" and lo: "- 8640000000000000 \<le> t" by linarith+
    have "\<bar>if 0 \<le> t then \<lfloor>t\<rfloor> else \<lceil>t\<rceil>\<bar> \<le> 8640000000000000"
    proof (cases "0 \<le> t")
      case True
      have f1: "\<lfloor>t\<rfloor> \<le> 8640000000000000" using floor_mono [OF up] by simp
      have f2: "0 \<le> \<lfloor>t\<rfloor>" using True by simp
      from f1 f2 have "\<bar>\<lfloor>t\<rfloor>\<bar> \<le> 8640000000000000" by linarith
      with True show ?thesis by (simp only: if_True)
    next
      case neg: False
      have c1: "- 8640000000000000 \<le> \<lceil>t\<rceil>" using ceiling_mono [OF lo] by simp
      have c2: "\<lceil>t\<rceil> \<le> 0" using neg by (simp add: ceiling_le_iff)
      from c1 c2 have "\<bar>\<lceil>t\<rceil>\<bar> \<le> 8640000000000000" by linarith
      with neg show ?thesis by (simp only: if_False)
    qed
    with Num False show ?thesis by auto
  qed
qed simp_all

lemma Date_of_string_cases:
  "getTime (Date_of_string hp s) = NaN
    \<or> (\<exists>z. getTime (Date_of_string hp s) = Num (of_int z) \<and> \<bar>z\<bar> \<le> 8640000000000000)"
  using TimeClip_cases [of "Date_parse hp s"] by (simp add: Date_of_string_def)

lemma randomTimestamp_between:
  assumes "0 \<le> (r::real)" "r < 1"
  shows "min a (b + 1) \<le> \<lfloor>r * of_int (b - a + 1)\<rfloor> + a \<and> \<lfloor>r * of_int (b - a + 1)\<rfloor> + a \<le> max a b"
proof (cases "a \<le> b")
  case True
  then have "0 < b - a + 1" by simp
  from floor_scaled_draw [OF assms this] True show ?thesis by linarith
next
  case False
  then have neg: "real_of_int (b - a + 1) \<le> 0" by simp
  have "r * of_int (b - a + 1) \<le> 0"
    by (rule mult_nonneg_nonpos [OF assms(1) neg])
  moreover have "of_int (b - a + 1) \<le> r * of_int (b - a + 1)"
  proof -
    have "(1 - r) * real_of_int (b - a + 1) \<le> 0"
      by (rule mult_nonneg_nonpos) (use assms neg in simp_all)
    then show ?thesis by (simp add: algebra_simps)
  qed
  ultimately have "\<lfloor>r * of_int (b - a + 1)\<rfloor> \<le> 0" "b - a + 1 \<le> \<lfloor>r * of_int (b - a + 1)\<rfloor>"
    by (simp_all only: le_floor_iff floor_le_iff of_int_0 of_int_add)
  with False show ?thesis by linarith
qed

lemma randomTimestamp_finite:
  assumes "0 \<le> rnd k" "rnd k < 1"
    and "\<bar>a\<bar> \<le> 8640000000000000" "\<bar>b\<bar> \<le> 8640000000000000"
  shows "fst (getRandomInt rnd (Num (of_int a)) (Num (of_int b)) k)
     = Num (of_int (\<lfloor>rnd k * of_int (b - a + 1)\<rfloor> + a))"
proof -
  from assms(3,4) have "\<bar>real_of_int a\<bar> \<le> 8640000000000000"
    "\<bar>real_of_int b\<bar> \<le> 8640000000000000"
    by (simp_all flip: of_int_abs)
  then have "\<bar>real_of_int a\<bar> \<le> 10000000000000000" "\<bar>real_of_int b\<bar> \<le> 10000000000000000"
    by linarith+
  from getRandomInt_finite [of rnd k "of_int a" "of_int b", OF assms(1,2) this]
  show ?thesis by simp
qed

lemma randomTimestamp_NaN:
  "isNaN x \<or> isNaN y \<Longrightarrow> fst (getRandomInt rnd x y k) = NaN"
  by (cases x; cases y) (simp_all add: getRandomInt_eq js_sub_def)

lemma toISOString_NaN: "toISOString (Date_of_number NaN) = Inl RangeError"
  by (simp add: Date_of_number_def)

lemma toISOString_clipped:
  "\<bar>z\<bar> \<le> 8640000000000000 \<Longrightarrow>
     toISOString (Date_of_number (Num (of_int z))) = Inr (date_string z @ ''T'' @ time_string z)"
proof -
  assume "\<bar>z\<bar> \<le> 8640000000000000"
  then have "\<bar>real_of_int z\<bar> \<le> 8640000000000000"
    by (simp flip: of_int_abs)
  then have "\<not> 8640000000000000 < \<bar>real_of_int z\<bar>" by simp
  then show ?thesis
    by (simp add: Date_of_number_def del: of_int_abs)
qed

lemma new_feature_invalid:
  assumes "isNaN (getTime s) \<or> isNaN (getTime e)"
  shows "new_feature rnd a b c d s e k = (Inl RangeError, k + 6)"
  by (simp add: new_feature_eq randomTimestamp_NaN [OF assms] toISOString_NaN)

lemma new_feature_valid:
  assumes rnd: "unit_draws rnd"
    and s: "getTime s = Num (of_int x)" "\<bar>x\<bar> \<le> 8640000000000000"
    and e: "getTime e = Num (of_int y)" "\<bar>y\<bar> \<le> 8640000000000000"
  shows "\<exists>f t. new_feature rnd a b c d s e k = (Inr f, k + 6)
      \<and> min x (y + 1) \<le> t \<and> t \<le> max x y
      \<and> date (properties f) = split_T_0 (date_string t @ ''T'' @ time_string t)"
proof -
  define t where "t = \<lfloor>rnd (k + 2) * of_int (y - x + 1)\<rfloor> + x"
  from rnd have r: "0 \<le> rnd (k + 2)" "rnd (k + 2) < 1" by (simp_all add: unit_drawsD)
  from randomTimestamp_between [OF r, of x y]
  have bt: "min x (y + 1) \<le> t" "t \<le> max x y" by (simp_all add: t_def)
  with s(2) e(2) have "\<bar>t\<bar> \<le> 8640000000000000" by linarith
  then have iso: "toISOString (Date_of_number (Num (of_int t)))
      = Inr (date_string t @ ''T'' @ time_string t)"
    by (rule toISOString_clipped)
  have ts: "fst (getRandomInt rnd (getTime s) (getTime e) (k + 2)) = Num (of_int t)"
    using randomTimestamp_finite [of rnd "k + 2" x y, OF r s(2) e(2)]
    by (simp add: s(1) e(1) t_def)
  show ?thesis
    unfolding new_feature_eq ts iso by (simp, rule exI [of _ t], simp add: bt)
qed

lemma bloom_loop_throws:
  assumes "\<And>j. new_feature rnd a b c d s e j = (Inl err, j + 6)" "i < nat \<lceil>n\<rceil>"
  shows "bloom_loop rnd a b c d s e (Num n) i fs k = Some (Inl err, k + 6)"
  using assms by (subst bloom_loop.simps) (simp add: loop_test)

lemma bloom_loop_total:
  assumes "\<And>j. \<exists>f. new_feature rnd a b c d s e j = (Inr f, j + 6)"
  shows "\<exists>fs1. bloom_loop rnd a b c d s e (Num n) i fs k
      = Some (Inr fs1, k + 6 * (nat \<lceil>n\<rceil> - i))"
proof (induction "nat \<lceil>n\<rceil> - i" arbitrary: i fs k)
  case 0
  then have "\<not> i < nat \<lceil>n\<rceil>" by linarith
  with 0 show ?case
    by (subst bloom_loop.simps) (simp add: loop_test)
next
  case (Suc m)
  then have lt: "i < nat \<lceil>n\<rceil>" and m: "m = nat \<lceil>n\<rceil> - Suc i" by simp_all
  from assms obtain f where nf: "new_feature rnd a b c d s e k = (Inr f, k + 6)" by blast
  from Suc.hyps(1) [OF m, of "fs @ [f]" "k + 6"] obtain fs1 where
    "bloom_loop rnd a b c d s e (Num n) (Suc i) (fs @ [f]) (k + 6)
      = Some (Inr fs1, k + 6 + 6 * (nat \<lceil>n\<rceil> - Suc i))" by blast
  moreover have "6 + 6 * (nat \<lceil>n\<rceil> - Suc i) = 6 * (nat \<lceil>n\<rceil> - i)" using lt by arith
  ultimately show ?case using lt nf
    by (subst bloom_loop.simps) (simp add: loop_test add.assoc)
qed

lemma numberOfPoints_range:
  assumes "unit_draws rnd"
  shows "150 \<le> \<lfloor>rnd k * 201\<rfloor> + 150 \<and> \<lfloor>rnd k * 201\<rfloor> + 150 \<le> 350"
  using getRandomInt_range [of "rnd k" 150 350] assms by (simp add: unit_drawsD)

text \<open>What the generator does, by the dates it is given.\<close>

lemma generateBloomData_invalid:
  assumes "unit_draws rnd"
    and "isNaN (getTime (Date_of_string hp s)) \<or> isNaN (getTime (Date_of_string hp e))"
  shows "generateBloomData hp rnd lat lon radius s e k = Some (Inl RangeError, k + 7)"
proof -
  define z where "z = \<lfloor>rnd k * 201\<rfloor> + 150"
  from numberOfPoints_range [OF assms(1), of k] have "0 < nat z" by (simp only: z_def) linarith
  then have "0 < nat \<lceil>real_of_int z\<rceil>" by (simp only: ceiling_of_int)
  from bloom_loop_throws [OF new_feature_invalid [OF assms(2)] this]
  show ?thesis unfolding generateBloomData_eq [OF assms(1)] z_def [symmetric] by simp
qed

lemma generateBloomData_valid:
  assumes "unit_draws rnd"
    and "\<not> isNaN (getTime (Date_of_string hp s))" "\<not> isNaN (getTime (Date_of_string hp e))"
  shows "\<exists>fc. generateBloomData hp rnd lat lon radius s e k
      = Some (Inr fc, k + 1 + 6 * nat (\<lfloor>rnd k * 201\<rfloor> + 150))"
proof -
  define z where "z = \<lfloor>rnd k * 201\<rfloor> + 150"
  from assms(2) Date_of_string_cases [of hp s] obtain x where
    x: "getTime (Date_of_string hp s) = Num (of_int x)" "\<bar>x\<bar> \<le> 8640000000000000" by auto
  from assms(3) Date_of_string_cases [of hp e] obtain y where
    y: "getTime (Date_of_string hp e) = Num (of_int y)" "\<bar>y\<bar> \<le> 8640000000000000" by auto
  have "\<exists>f. new_feature rnd a b c d (Date_of_string hp s) (Date_of_string hp e) j = (Inr f, j + 6)"
    for a b c d j
    using new_feature_valid [OF assms(1) x y, of a b c d j] by blast
  from bloom_loop_total [OF this, of "js_sub lat radius" "js_add lat radius" "js_sub lon radius"
      "js_add lon radius" "of_int z" 0 "[]" "Suc k"]
  obtain fs1 where "bloom_loop rnd (js_sub lat radius) (js_add lat radius) (js_sub lon radius)
      (js_add lon radius) (Date_of_string hp s) (Date_of_string hp e) (Num (of_int z)) 0 [] (Suc k)
      = Some (Inr fs1, Suc k + 6 * (nat \<lceil>real_of_int z\<rceil> - 0))" by blast
  then have "generateBloomData hp rnd lat lon radius s e k
      = Some (Inr \<lparr>ctype = ''FeatureCollection'', features = fs1\<rparr>, k + 1 + 6 * nat z)"
    unfolding generateBloomData_eq [OF assms(1)] z_def [symmetric] by simp
  then show ?thesis unfolding z_def by blast
qed

section \<open>The calendar of the host\<close>






















lemma leap_flag: "(if DaysInYear y = 366 then 1 else 0) = (0::int) \<or> (if DaysInYear y = 366 then 1 else 0) = (1::int)"
  by simp

































subsection \<open>Dates of the calendar as strings\<close>












subsection \<open>A request to try the theorems on\<close>

lemma calendar_date_example_start: "calendar_date ''2025-03-01'' = Some (2025, 3, 1)"
  by (simp add: calendar_date_def is_digit_def digit_val_def DaysInMonth_def month_start_def
      DaysInYear_def)

lemma calendar_date_example_end: "calendar_date ''2025-05-31'' = Some (2025, 5, 31)"
  by (simp add: calendar_date_def is_digit_def digit_val_def DaysInMonth_def month_start_def
      DaysInYear_def)

lemma Date_example_start: "Date_of_string hp ''2025-03-01'' = Date (Num 1740787200000)"
  by (simp add: Date_of_string_def Date_parse_def calendar_date_example_start MakeDate_def
      MakeDay_def DayFromYear_def DaysInYear_def month_start_def msPerDay_def)

lemma Date_example_end: "Date_of_string hp ''2025-05-31'' = Date (Num 1748649600000)"
  by (simp add: Date_of_string_def Date_parse_def calendar_date_example_end MakeDate_def
      MakeDay_def DayFromYear_def DaysInYear_def month_start_def msPerDay_def)

lemma unit_draws_const: "0 \<le> c \<Longrightarrow> c < 1 \<Longrightarrow> unit_draws (\<lambda>_. c)"
  by (simp add: unit_draws_def)

lemma example_request:
  assumes "unit_draws rnd"
  shows "\<exists>fc. generateBloomData hp rnd lat lon radius ''2025-03-01'' ''2025-05-31'' k
           = Some (Inr fc, k + 1 + 6 * nat (\<lfloor>rnd k * 201\<rfloor> + 150))
         \<and> length (features fc) = nat (\<lfloor>rnd k * 201\<rfloor> + 150)"
proof -
  from generateBloomData_valid [OF assms, of hp "''2025-03-01''" "''2025-05-31''" lat lon radius k]
  obtain fc where fc: "generateBloomData hp rnd lat lon radius ''2025-03-01'' ''2025-05-31'' k
           = Some (Inr fc, k + 1 + 6 * nat (\<lfloor>rnd k * 201\<rfloor> + 150))"
    by (auto simp: Date_example_start Date_example_end)
  from generateBloomData_features(2) [where Q = "\<lambda>_. True", OF assms _ fc] fc
  show ?thesis by blast
qed

section \<open>The claims\<close>

text \<open>
  C6. In every observation the generator returns, \<open>trend\<close> is one of earlier, stable and
  later, and \<open>prediction\<close> one of significant, moderate, slight and no_change: the
  random index never leaves the array, so neither is \<open>undefined\<close>.
\<close>

theorem categories_within_arrays:
  assumes "unit_draws rnd"
    and "generateBloomData hp rnd lat lon radius s e k = Some (Inr fc, k1)"
    and "f \<in> set (features fc)"
  shows "trend (properties f) \<in> {Some ''earlier'', Some ''stable'', Some ''later''}
    \<and> prediction (properties f)
        \<in> {Some ''significant'', Some ''moderate'', Some ''slight'', Some ''no_change''}"
proof -
  let ?Q = "\<lambda>f. trend (properties f) \<in> {Some ''earlier'', Some ''stable'', Some ''later''}
    \<and> prediction (properties f)
        \<in> {Some ''significant'', Some ''moderate'', Some ''slight'', Some ''no_change''}"
  have "list_all ?Q (features fc)"
    by (rule generateBloomData_features(1) [OF assms(1) _ assms(2)])
      (use new_feature_categories [OF assms(1)] in blast)
  with assms(3) show ?thesis by (simp add: list_all_iff)
qed

theorem categories_within_arrays_witness:
  "\<exists>fc k1. generateBloomData (\<lambda>_. NaN) (\<lambda>_. 1 / 2) (Num 10) (Num 20) (Num 2)
        ''2025-03-01'' ''2025-05-31'' 0 = Some (Inr fc, k1)
     \<and> features fc \<noteq> []
     \<and> list_all (\<lambda>f. trend (properties f) \<in> {Some ''earlier'', Some ''stable'', Some ''later''}
          \<and> prediction (properties f)
              \<in> {Some ''significant'', Some ''moderate'', Some ''slight'', Some ''no_change''})
         (features fc)"
proof -
  have ud: "unit_draws (\<lambda>_. 1 / 2)" by (simp add: unit_draws_const)
  from example_request [OF ud, of "\<lambda>_. NaN" "Num 10" "Num 20" "Num 2" 0]
  obtain fc k1 where fc: "generateBloomData (\<lambda>_. NaN) (\<lambda>_. 1 / 2) (Num 10) (Num 20) (Num 2)
        ''2025-03-01'' ''2025-05-31'' 0 = Some (Inr fc, k1)"
    and len: "length (features fc) = nat (\<lfloor>(1 / 2 :: real) * 201\<rfloor> + 150)" by blast
  from len have "features fc \<noteq> []" by auto
  with fc categories_within_arrays [OF ud fc] show ?thesis
    by (auto simp: list_all_iff)
qed

text \<open>
  C5. The number of features of a returned collection is an integer from 150 to 350,
  and both ends are attained: 150 when the first draw is 0, 350 when it is 0.999.
\<close>

theorem feature_count:
  "(unit_draws rnd \<and> generateBloomData hp rnd lat lon radius s e k = Some (Inr fc, k1)
      \<longrightarrow> 150 \<le> length (features fc) \<and> length (features fc) \<le> 350
        \<and> int (length (features fc)) = \<lfloor>rnd k * 201\<rfloor> + 150)
   \<and> (\<exists>fc0 j. generateBloomData hp (\<lambda>_. 0) lat lon radius ''2025-03-01'' ''2025-05-31'' k
          = Some (Inr fc0, j) \<and> length (features fc0) = 150)
   \<and> (\<exists>fc1 j. generateBloomData hp (\<lambda>_. 999 / 1000) lat lon radius ''2025-03-01'' ''2025-05-31'' k
          = Some (Inr fc1, j) \<and> length (features fc1) = 350)"
proof (intro conjI impI)
  assume a: "unit_draws rnd \<and> generateBloomData hp rnd lat lon radius s e k = Some (Inr fc, k1)"
  then have ret: "generateBloomData hp rnd lat lon radius s e k = Some (Inr fc, k1)" by simp
  have len: "length (features fc) = nat (\<lfloor>rnd k * 201\<rfloor> + 150)"
    by (rule generateBloomData_features(2) [where Q = "\<lambda>_. True", OF _ _ ret])
      (use a in simp_all)
  from a numberOfPoints_range [of rnd k]
  have "150 \<le> \<lfloor>rnd k * 201\<rfloor> + 150" "\<lfloor>rnd k * 201\<rfloor> + 150 \<le> 350" by simp_all
  with len show "150 \<le> length (features fc)" "length (features fc) \<le> 350"
    "int (length (features fc)) = \<lfloor>rnd k * 201\<rfloor> + 150" by linarith+
next
  have "unit_draws (\<lambda>_. 0)" by (simp add: unit_draws_const)
  from example_request [OF this, of hp lat lon radius k]
  show "\<exists>fc0 j. generateBloomData hp (\<lambda>_. 0) lat lon radius ''2025-03-01'' ''2025-05-31'' k
          = Some (Inr fc0, j) \<and> length (features fc0) = 150"
    by auto
next
  have "unit_draws (\<lambda>_. 999 / 1000)" by (simp add: unit_draws_const)
  from example_request [OF this, of hp lat lon radius k]
  show "\<exists>fc1 j. generateBloomData hp (\<lambda>_. 999 / 1000) lat lon radius ''2025-03-01'' ''2025-05-31'' k
          = Some (Inr fc1, j) \<and> length (features fc1) = 350"
    by auto
qed

theorem feature_count_witness:
  "\<exists>fc k1. generateBloomData (\<lambda>_. NaN) (\<lambda>_. 1 / 2) (Num 10) (Num 20) (Num 2)
        ''2025-03-01'' ''2025-05-31'' 0 = Some (Inr fc, k1)
     \<and> 150 \<le> length (features fc) \<and> length (features fc) \<le> 350
     \<and> length (features fc) = 250"
proof -
  have ud: "unit_draws (\<lambda>_. 1 / 2)" by (simp add: unit_draws_const)
  from example_request [OF ud, of "\<lambda>_. NaN" "Num 10" "Num 20" "Num 2" 0]
  obtain fc k1 where fc: "generateBloomData (\<lambda>_. NaN) (\<lambda>_. 1 / 2) (Num 10) (Num 20) (Num 2)
        ''2025-03-01'' ''2025-05-31'' 0 = Some (Inr fc, k1)" by blast
  from feature_count [of "\<lambda>_. 1 / 2" "\<lambda>_. NaN" "Num 10" "Num 20" "Num 2"
      "''2025-03-01''" "''2025-05-31''" 0 fc k1] ud fc
  have "150 \<le> length (features fc) \<and> length (features fc) \<le> 350
      \<and> int (length (features fc)) = \<lfloor>(1 / 2 :: real) * 201\<rfloor> + 150" by blast
  moreover have "\<lfloor>(1 / 2 :: real) * 201\<rfloor> = 100" by simp
  ultimately show ?thesis using fc by auto
qed

lemma new_feature_point:
  assumes "new_feature rnd a b c d s e k = (Inr f, k1)"
  shows "coordinates (geometry f)
      = [js_add (js_mul (Num (rnd (k + 1))) (js_sub d c)) c,
         js_add (js_mul (Num (rnd k)) (js_sub b a)) a]"
    and "intensity (properties f)
      = js_mul (Num (rnd (k + 3)))
          (js_div (js_sub (Num 90) (Math_abs (js_add (js_mul (Num (rnd k)) (js_sub b a)) a)))
             (Num 90))"
  using assms by (auto simp: new_feature_eq getRandomFloat_eq split: sum.splits)

lemma getRandomFloat_box:
  assumes "0 \<le> (r::real)" "r < 1" "0 \<le> radius"
  shows "c - radius \<le> r * (c + radius - (c - radius)) + (c - radius)"
    and "r * (c + radius - (c - radius)) + (c - radius) \<le> c + radius"
proof -
  have "0 \<le> r * (2 * radius)" using assms by simp
  moreover have "r * (2 * radius) \<le> 1 * (2 * radius)"
    by (rule mult_right_mono) (use assms in simp_all)
  ultimately show "c - radius \<le> r * (c + radius - (c - radius)) + (c - radius)"
    and "r * (c + radius - (c - radius)) + (c - radius) \<le> c + radius"
    by simp_all
qed

lemma getRandomFloat_within:
  assumes r: "0 \<le> r" "r < 1" and radius: "0 \<le> radius" "radius \<le> 2 ^ 1022"
    and c: "\<bar>c\<bar> \<le> 2 ^ 1022"
  shows "js_add (js_mul (Num r) (js_sub (js_add (Num c) (Num radius)) (js_sub (Num c) (Num radius))))
      (js_sub (Num c) (Num radius))
    = Num (r * (c + radius - (c - radius)) + (c - radius))"
proof -
  define B :: real where "B = 2 ^ 1022"
  have B: "2 * B < overflow_bound" unfolding B_def by (rule overflow_bound_large(1))
  have cB: "\<bar>c\<bar> \<le> B" and rB: "radius \<le> B" using c radius(2) by (simp_all only: B_def)
  note box = getRandomFloat_box [OF r radius(1), of c]
  have p: "0 \<le> r * (c + radius - (c - radius))" "r * (c + radius - (c - radius)) \<le> 2 * radius"
    using box by linarith+
  have n1: "js_number (c + radius) = Num (c + radius)"
    by (rule js_number_finite) (use cB rB radius(1) B in linarith)
  have n2: "js_number (c + - radius) = Num (c - radius)"
    using js_number_finite [of "c + - radius"] cB rB radius(1) B by simp
  have n3: "js_number (c + radius + - (c - radius)) = Num (c + radius - (c - radius))"
    using js_number_finite [of "c + radius + - (c - radius)"] rB radius(1) B by simp
  have n4: "js_number (r * (c + radius - (c - radius))) = Num (r * (c + radius - (c - radius)))"
    by (rule js_number_finite) (use p rB radius(1) B in linarith)
  have n5: "js_number (r * (c + radius - (c - radius)) + (c - radius))
      = Num (r * (c + radius - (c - radius)) + (c - radius))"
    by (rule js_number_finite) (use box cB rB radius(1) B in linarith)
  show ?thesis
    unfolding js_sub_def
    by (simp only: js_add.simps js_neg.simps js_mul.simps n1 n2 n3 n4 n5)
qed

text \<open>
  C4, as amended. With a centre and a radius that are finite, the radius not negative
  and all three at most \<open>2 ^ 1022\<close> in magnitude, the coordinates of every returned
  observation are a longitude within \<open>radius\<close> of \<open>lon\<close> and a latitude within \<open>radius\<close>
  of \<open>lat\<close>, in that order.
\<close>

theorem coordinates_within_box:
  assumes "unit_draws rnd" and "0 \<le> radius" and "radius \<le> 2 ^ 1022"
    and "\<bar>lat\<bar> \<le> 2 ^ 1022" and "\<bar>lon\<bar> \<le> 2 ^ 1022"
    and "generateBloomData hp rnd (Num lat) (Num lon) (Num radius) s e k = Some (Inr fc, k1)"
    and "f \<in> set (features fc)"
  shows "\<exists>x y. coordinates (geometry f) = [Num x, Num y]
      \<and> lon - radius \<le> x \<and> x \<le> lon + radius
      \<and> lat - radius \<le> y \<and> y \<le> lat + radius"
proof -
  let ?Q = "\<lambda>f. \<exists>x y. coordinates (geometry f) = [Num x, Num y]
      \<and> lon - radius \<le> x \<and> x \<le> lon + radius
      \<and> lat - radius \<le> y \<and> y \<le> lat + radius"
  have "?Q g" if "new_feature rnd (js_sub (Num lat) (Num radius)) (js_add (Num lat) (Num radius))
      (js_sub (Num lon) (Num radius)) (js_add (Num lon) (Num radius))
      (Date_of_string hp s) (Date_of_string hp e) j = (Inr g, j1)" for j g j1
  proof -
    from assms(1) have r: "0 \<le> rnd j" "rnd j < 1" "0 \<le> rnd (j + 1)" "rnd (j + 1) < 1"
      by (simp_all add: unit_drawsD)
    from new_feature_point(1) [OF that]
    have "coordinates (geometry g)
      = [Num (rnd (j + 1) * (lon + radius - (lon - radius)) + (lon - radius)),
         Num (rnd j * (lat + radius - (lat - radius)) + (lat - radius))]"
      by (simp only: getRandomFloat_within [OF r(1,2) assms(2,3,4)]
          getRandomFloat_within [OF r(3,4) assms(2,3,5)])
    with getRandomFloat_box [OF r(1,2) assms(2), of lat]
      getRandomFloat_box [OF r(3,4) assms(2), of lon]
    show ?thesis by blast
  qed
  then have "list_all ?Q (features fc)"
    by (rule generateBloomData_features(1) [OF assms(1) _ assms(6)])
  with assms(7) show ?thesis
    unfolding list_all_iff by blast
qed

theorem coordinates_within_box_witness:
  "\<exists>fc k1. generateBloomData (\<lambda>_. NaN) (\<lambda>_. 1 / 2) (Num 10) (Num 20) (Num 2)
        ''2025-03-01'' ''2025-05-31'' 0 = Some (Inr fc, k1)
     \<and> features fc \<noteq> []
     \<and> list_all (\<lambda>f. \<exists>x y. coordinates (geometry f) = [Num x, Num y]
          \<and> 20 - 2 \<le> x \<and> x \<le> 20 + 2 \<and> 10 - 2 \<le> y \<and> y \<le> 10 + 2) (features fc)"
proof -
  have ud: "unit_draws (\<lambda>_. 1 / 2)" by (simp add: unit_draws_const)
  from example_request [OF ud, of "\<lambda>_. NaN" "Num 10" "Num 20" "Num 2" 0]
  obtain fc k1 where fc: "generateBloomData (\<lambda>_. NaN) (\<lambda>_. 1 / 2) (Num 10) (Num 20) (Num 2)
        ''2025-03-01'' ''2025-05-31'' 0 = Some (Inr fc, k1)"
    and len: "length (features fc) = nat (\<lfloor>(1 / 2 :: real) * 201\<rfloor> + 150)" by blast
  from len have "features fc \<noteq> []" by auto
  moreover have "(0::real) \<le> 2" "(2::real) \<le> 2 ^ 1022" "\<bar>10::real\<bar> \<le> 2 ^ 1022"
    "\<bar>20::real\<bar> \<le> 2 ^ 1022" by simp_all
  note coordinates_within_box [OF ud this fc]
  ultimately show ?thesis using fc
    unfolding list_all_iff by blast
qed

text \<open>
  C4 as stated asks of the radius only that it is not negative. With the radius
  \<open>2 ^ 1023\<close> around the centre (0, 0) the width of the box, \<open>maxLat - minLat\<close>, overflows
  to \<open>Infinity\<close>, and every observation lies at (\<open>Infinity\<close>, \<open>Infinity\<close>); with the radius
  \<open>Infinity\<close>, which \<open>parseFloat\<close> reads and the handler lets through, every observation
  lies at (\<open>NaN\<close>, \<open>NaN\<close>). Neither is within the box.
\<close>

theorem coordinates_within_box_counterexample:
  "(0::real) \<le> 2 ^ 1023
   \<and> (\<exists>fc k1. generateBloomData (\<lambda>_. NaN) (\<lambda>_. 1 / 2) (Num 0) (Num 0) (Num (2 ^ 1023))
        ''2025-03-01'' ''2025-05-31'' 0 = Some (Inr fc, k1)
      \<and> features fc \<noteq> []
      \<and> list_all (\<lambda>f. coordinates (geometry f) = [PosInf, PosInf]) (features fc))
   \<and> js_lt (Num 0) PosInf
   \<and> (\<exists>fc k1. generateBloomData (\<lambda>_. NaN) (\<lambda>_. 1 / 2) (Num 0) (Num 0) PosInf
        ''2025-03-01'' ''2025-05-31'' 0 = Some (Inr fc, k1)
      \<and> features fc \<noteq> []
      \<and> list_all (\<lambda>f. coordinates (geometry f) = [NaN, NaN]) (features fc))"
proof -
  have ud: "unit_draws (\<lambda>_. 1 / 2)" by (simp add: unit_draws_const)
  have "\<exists>fc k1. generateBloomData (\<lambda>_. NaN) (\<lambda>_. 1 / 2) (Num 0) (Num 0) (Num (2 ^ 1023))
        ''2025-03-01'' ''2025-05-31'' 0 = Some (Inr fc, k1)
      \<and> features fc \<noteq> []
      \<and> list_all (\<lambda>f. coordinates (geometry f) = [PosInf, PosInf]) (features fc)"
  proof -
    from example_request [OF ud, of "\<lambda>_. NaN" "Num 0" "Num 0" "Num (2 ^ 1023)" 0]
    obtain fc k1 where fc: "generateBloomData (\<lambda>_. NaN) (\<lambda>_. 1 / 2) (Num 0) (Num 0)
        (Num (2 ^ 1023)) ''2025-03-01'' ''2025-05-31'' 0 = Some (Inr fc, k1)"
      and len: "length (features fc) = nat (\<lfloor>(1 / 2 :: real) * 201\<rfloor> + 150)" by blast
    from len have ne: "features fc \<noteq> []" by auto
    have "coordinates (geometry g) = [PosInf, PosInf]"
      if "new_feature (\<lambda>_. 1 / 2) (js_sub (Num 0) (Num (2 ^ 1023)))
        (js_add (Num 0) (Num (2 ^ 1023))) (js_sub (Num 0) (Num (2 ^ 1023)))
        (js_add (Num 0) (Num (2 ^ 1023)))
        (Date_of_string (\<lambda>_. NaN) ''2025-03-01'') (Date_of_string (\<lambda>_. NaN) ''2025-05-31'') j
        = (Inr g, j1)" for j g j1
      using new_feature_point(1) [OF that]
      by (simp add: js_sub_def js_number_def overflow_bound_def)
    then have "list_all (\<lambda>f. coordinates (geometry f) = [PosInf, PosInf]) (features fc)"
      by (rule generateBloomData_features(1) [OF ud _ fc])
    with fc ne show ?thesis by blast
  qed
  moreover have "\<exists>fc k1. generateBloomData (\<lambda>_. NaN) (\<lambda>_. 1 / 2) (Num 0) (Num 0) PosInf
        ''2025-03-01'' ''2025-05-31'' 0 = Some (Inr fc, k1)
      \<and> features fc \<noteq> []
      \<and> list_all (\<lambda>f. coordinates (geometry f) = [NaN, NaN]) (features fc)"
  proof -
    from example_request [OF ud, of "\<lambda>_. NaN" "Num 0" "Num 0" PosInf 0]
    obtain fc k1 where fc: "generateBloomData (\<lambda>_. NaN) (\<lambda>_. 1 / 2) (Num 0) (Num 0)
        PosInf ''2025-03-01'' ''2025-05-31'' 0 = Some (Inr fc, k1)"
      and len: "length (features fc) = nat (\<lfloor>(1 / 2 :: real) * 201\<rfloor> + 150)" by blast
    from len have ne: "features fc \<noteq> []" by auto
    have "coordinates (geometry g) = [NaN, NaN]"
      if "new_feature (\<lambda>_. 1 / 2) (js_sub (Num 0) PosInf) (js_add (Num 0) PosInf)
        (js_sub (Num 0) PosInf) (js_add (Num 0) PosInf)
        (Date_of_string (\<lambda>_. NaN) ''2025-03-01'') (Date_of_string (\<lambda>_. NaN) ''2025-05-31'') j
        = (Inr g, j1)" for j g j1
      using new_feature_point(1) [OF that] by (simp add: js_sub_def)
    then have "list_all (\<lambda>f. coordinates (geometry f) = [NaN, NaN]) (features fc)"
      by (rule generateBloomData_features(1) [OF ud _ fc])
    with fc ne show ?thesis by blast
  qed
  ultimately show ?thesis by simp
qed

lemma intensity_scaled:
  assumes "0 \<le> (r::real)" "r < 1" "\<bar>y\<bar> \<le> 90"
  shows "0 \<le> r * ((90 - \<bar>y\<bar>) / 90)" and "r * ((90 - \<bar>y\<bar>) / 90) < 1"
    and "r * ((90 - \<bar>y\<bar>) / 90) \<le> (90 - \<bar>y\<bar>) / 90"
    and "\<bar>y\<bar> < 90 \<Longrightarrow> r * ((90 - \<bar>y\<bar>) / 90) < (90 - \<bar>y\<bar>) / 90"
proof -
  let ?c = "(90 - \<bar>y\<bar>) / 90"
  from assms(3) have c: "0 \<le> ?c" "?c \<le> 1" by simp_all
  show "0 \<le> r * ?c" using assms(1) c(1) by simp
  have "r * ?c \<le> r * 1" by (rule mult_left_mono) (use assms(1) c(2) in simp_all)
  with assms(2) show "r * ?c < 1" by simp
  have "r * ?c \<le> 1 * ?c" by (rule mult_right_mono) (use assms(2) c(1) in simp_all)
  then show "r * ?c \<le> ?c" by simp
  assume "\<bar>y\<bar> < 90"
  then have "0 < ?c" by simp
  with assms(2) have "r * ?c < 1 * ?c" by (rule mult_strict_right_mono)
  then show "r * ?c < ?c" by simp
qed

text \<open>
  C1, as amended. In every returned observation whose latitude is within 90 of the
  equator, \<open>intensity\<close> is at least 0, below 1 and at most \<open>(90 - |latitude|) / 90\<close>, and
  below that bound when the latitude is not 90 or -90.
\<close>

theorem intensity_bound:
  assumes "unit_draws rnd"
    and "generateBloomData hp rnd lat lon radius s e k = Some (Inr fc, k1)"
    and "f \<in> set (features fc)"
    and "coordinates (geometry f) ! 1 = Num y" and "\<bar>y\<bar> \<le> 90"
  shows "\<exists>i. intensity (properties f) = Num i \<and> 0 \<le> i \<and> i < 1 \<and> i \<le> (90 - \<bar>y\<bar>) / 90
      \<and> (\<bar>y\<bar> < 90 \<longrightarrow> i < (90 - \<bar>y\<bar>) / 90)"
proof -
  let ?Q = "\<lambda>f. \<forall>y. coordinates (geometry f) ! 1 = Num y \<and> \<bar>y\<bar> \<le> 90 \<longrightarrow>
      (\<exists>i. intensity (properties f) = Num i \<and> 0 \<le> i \<and> i < 1 \<and> i \<le> (90 - \<bar>y\<bar>) / 90
        \<and> (\<bar>y\<bar> < 90 \<longrightarrow> i < (90 - \<bar>y\<bar>) / 90))"
  have "?Q g" if nf: "new_feature rnd a b c d (Date_of_string hp s) (Date_of_string hp e) j
      = (Inr g, j1)" for a b c d j g j1
  proof (intro allI impI)
    fix y assume y: "coordinates (geometry g) ! 1 = Num y \<and> \<bar>y\<bar> \<le> 90"
    from assms(1) have r: "0 \<le> rnd (j + 3)" "rnd (j + 3) < 1" by (simp_all add: unit_drawsD)
    from y new_feature_point(1) [OF nf]
    have "js_add (js_mul (Num (rnd j)) (js_sub b a)) a = Num y" by simp
    with new_feature_point(2) [OF nf]
    have i0: "intensity (properties g)
        = js_mul (Num (rnd (j + 3))) (js_div (js_sub (Num 90) (Num \<bar>y\<bar>)) (Num 90))"
      by simp
    note sc = intensity_scaled [OF r, of y]
    from y have n1: "js_number (90 + - \<bar>y\<bar>) = Num (90 - \<bar>y\<bar>)"
      using js_number_small [of "90 + - \<bar>y\<bar>"] by simp
    from y have n2: "js_number ((90 - \<bar>y\<bar>) / 90) = Num ((90 - \<bar>y\<bar>) / 90)"
      by (intro js_number_small) simp
    from y sc(1,2) have n3: "js_number (rnd (j + 3) * ((90 - \<bar>y\<bar>) / 90))
        = Num (rnd (j + 3) * ((90 - \<bar>y\<bar>) / 90))"
      by (intro js_number_small) linarith
    have dv: "js_div (Num x) (Num 90) = js_number (x / 90)" for x by simp
    have "intensity (properties g) = Num (rnd (j + 3) * ((90 - \<bar>y\<bar>) / 90))"
      unfolding i0 js_sub_def
      by (simp only: js_neg.simps js_add.simps js_mul.simps dv n1 n2 n3)
    with sc y
    show "\<exists>i. intensity (properties g) = Num i \<and> 0 \<le> i \<and> i < 1 \<and> i \<le> (90 - \<bar>y\<bar>) / 90
        \<and> (\<bar>y\<bar> < 90 \<longrightarrow> i < (90 - \<bar>y\<bar>) / 90)"
      by blast
  qed
  then have "list_all ?Q (features fc)"
    by (rule generateBloomData_features(1) [OF assms(1) _ assms(2)])
  with assms(3,4,5) show ?thesis
    unfolding list_all_iff by blast
qed

theorem intensity_bound_witness:
  "\<exists>fc k1. generateBloomData (\<lambda>_. NaN) (\<lambda>_. 1 / 2) (Num 10) (Num 20) (Num 2)
        ''2025-03-01'' ''2025-05-31'' 0 = Some (Inr fc, k1)
     \<and> features fc \<noteq> []
     \<and> list_all (\<lambda>f. coordinates (geometry f) ! 1 = Num 10 \<and> \<bar>10 :: real\<bar> < 90
          \<and> (\<exists>i. intensity (properties f) = Num i \<and> 0 \<le> i \<and> i < 1
                \<and> i < (90 - \<bar>10\<bar>) / 90)) (features fc)"
proof -
  have ud: "unit_draws (\<lambda>_. 1 / 2)" by (simp add: unit_draws_const)
  from example_request [OF ud, of "\<lambda>_. NaN" "Num 10" "Num 20" "Num 2" 0]
  obtain fc k1 where fc: "generateBloomData (\<lambda>_. NaN) (\<lambda>_. 1 / 2) (Num 10) (Num 20) (Num 2)
        ''2025-03-01'' ''2025-05-31'' 0 = Some (Inr fc, k1)"
    and len: "length (features fc) = nat (\<lfloor>(1 / 2 :: real) * 201\<rfloor> + 150)" by blast
  from len have ne: "features fc \<noteq> []" by auto
  have "coordinates (geometry g) ! 1 = Num 10"
    if "new_feature (\<lambda>_. 1 / 2) (js_sub (Num 10) (Num 2)) (js_add (Num 10) (Num 2))
      (js_sub (Num 20) (Num 2)) (js_add (Num 20) (Num 2))
      (Date_of_string (\<lambda>_. NaN) ''2025-03-01'') (Date_of_string (\<lambda>_. NaN) ''2025-05-31'') j
      = (Inr g, j1)" for j g j1
    using new_feature_point(1) [OF that] by (simp add: js_sub_def js_number_small)
  then have lat: "list_all (\<lambda>f. coordinates (geometry f) ! 1 = Num 10) (features fc)"
    by (rule generateBloomData_features(1) [OF ud _ fc])
  have "\<exists>i. intensity (properties f) = Num i \<and> 0 \<le> i \<and> i < 1 \<and> i < (90 - \<bar>10\<bar>) / 90"
    if "f \<in> set (features fc)" for f
  proof -
    from lat that have "coordinates (geometry f) ! 1 = Num 10" by (simp add: list_all_iff)
    from intensity_bound [OF ud fc that this] show ?thesis by auto
  qed
  with fc ne lat show ?thesis
    unfolding list_all_iff by auto
qed

text \<open>
  C1 as stated fails at a pole: for a centre at latitude 90 and radius 0 every
  observation lies at latitude 90, where the bound \<open>(90 - 90) / 90\<close> is 0 and the
  intensity is 0, not below it.
\<close>

theorem intensity_bound_counterexample:
  "\<exists>fc k1. generateBloomData (\<lambda>_. NaN) (\<lambda>_. 1 / 2) (Num 90) (Num 20) (Num 0)
        ''2025-03-01'' ''2025-05-31'' 0 = Some (Inr fc, k1)
     \<and> features fc \<noteq> []
     \<and> list_all (\<lambda>f. coordinates (geometry f) ! 1 = Num 90 \<and> intensity (properties f) = Num 0)
         (features fc)
     \<and> \<bar>90 :: real\<bar> \<le> 90 \<and> \<not> (0 :: real) < (90 - \<bar>90\<bar>) / 90"
proof -
  have ud: "unit_draws (\<lambda>_. 1 / 2)" by (simp add: unit_draws_const)
  from example_request [OF ud, of "\<lambda>_. NaN" "Num 90" "Num 20" "Num 0" 0]
  obtain fc k1 where fc: "generateBloomData (\<lambda>_. NaN) (\<lambda>_. 1 / 2) (Num 90) (Num 20) (Num 0)
        ''2025-03-01'' ''2025-05-31'' 0 = Some (Inr fc, k1)"
    and len: "length (features fc) = nat (\<lfloor>(1 / 2 :: real) * 201\<rfloor> + 150)" by blast
  from len have ne: "features fc \<noteq> []" by auto
  have "coordinates (geometry g) ! 1 = Num 90 \<and> intensity (properties g) = Num 0"
    if "new_feature (\<lambda>_. 1 / 2) (js_sub (Num 90) (Num 0)) (js_add (Num 90) (Num 0))
      (js_sub (Num 20) (Num 0)) (js_add (Num 20) (Num 0))
      (Date_of_string (\<lambda>_. NaN) ''2025-03-01'') (Date_of_string (\<lambda>_. NaN) ''2025-05-31'') j
      = (Inr g, j1)" for j g j1
    using new_feature_point [OF that] by (simp add: js_sub_def js_number_small)
  then have "list_all (\<lambda>f. coordinates (geometry f) ! 1 = Num 90 \<and> intensity (properties f) = Num 0)
      (features fc)"
    by (rule generateBloomData_features(1) [OF ud _ fc])
  with fc ne show ?thesis by auto
qed

text \<open>
  C9. The generator returns on every input, with a collection or with the error it
  throws, after at most 350 passes through its loop: it makes one draw for the number
  of points and six in each pass.
\<close>

theorem generator_terminates:
  assumes "unit_draws rnd"
  shows "\<exists>r j. generateBloomData hp rnd lat lon radius s e k = Some (r, k + 1 + 6 * j) \<and> j \<le> 350"
proof -
  define z where "z = \<lfloor>rnd k * 201\<rfloor> + 150"
  from bloom_loop_returns [of rnd "js_sub lat radius" "js_add lat radius" "js_sub lon radius"
      "js_add lon radius" "Date_of_string hp s" "Date_of_string hp e" "of_int z" 0 "[]" "Suc k"]
  obtain r j where loop: "bloom_loop rnd (js_sub lat radius) (js_add lat radius)
      (js_sub lon radius) (js_add lon radius) (Date_of_string hp s) (Date_of_string hp e)
      (Num (of_int z)) 0 [] (Suc k) = Some (r, Suc k + 6 * j)"
    and j: "j \<le> nat \<lceil>real_of_int z\<rceil> - 0" by blast
  from numberOfPoints_range [OF assms, of k] have "nat z \<le> 350" unfolding z_def by linarith
  with j have "j \<le> 350" by simp
  moreover from loop have "\<exists>r1. generateBloomData hp rnd lat lon radius s e k
      = Some (r1, k + 1 + 6 * j)"
    unfolding generateBloomData_eq [OF assms] z_def [symmetric] by (cases r) simp_all
  ultimately show ?thesis by blast
qed

theorem generator_terminates_witness:
  "unit_draws (\<lambda>_. 1 / 2)
   \<and> (\<exists>r j. generateBloomData (\<lambda>_. NaN) (\<lambda>_. 1 / 2) NaN PosInf (Num (- 1)) ''abc'' ''2025-03-01'' 0
          = Some (r, 0 + 1 + 6 * j) \<and> j \<le> 350)"
proof -
  have ud: "unit_draws (\<lambda>_. 1 / 2)" by (simp add: unit_draws_const)
  with generator_terminates [OF ud] show ?thesis by blast
qed

text \<open>The loop never moves the random source backwards, whatever its bound.\<close>

lemma bloom_loop_advances:
  assumes "bloom_loop rnd a b c d s e n i fs k = Some y"
  shows "k \<le> snd y"
  using assms
proof (induct rule: bloom_loop.raw_induct [rotated, consumes 1])
  case (1 loop rnd a b c d s e n i fs k y)
  show ?case
  proof (cases "js_lt (Num (real i)) n")
    case False
    with 1(2) show ?thesis by auto
  next
    case True
    obtain r k1 where nf: "new_feature rnd a b c d s e k = (r, k1)"
      by (cases "new_feature rnd a b c d s e k")
    with new_feature_draws [of rnd a b c d s e k] have k1: "k1 = k + 6" by simp
    show ?thesis
    proof (cases r)
      case (Inl err)
      with True nf k1 1(2) show ?thesis by auto
    next
      case (Inr f)
      with True nf 1(2) have "loop rnd a b c d s e n (Suc i) (fs @ [f]) k1 = Some y" by simp
      from 1(1) [OF this] k1 show ?thesis by simp
    qed
  qed
qed

lemma generateBloomData_draws:
  "generateBloomData hp rnd lat lon radius s e k \<noteq> Some (r, k)"
proof
  assume ret: "generateBloomData hp rnd lat lon radius s e k = Some (r, k)"
  define n where "n = fst (getRandomInt rnd (Num 150) (Num 350) k)"
  from ret obtain y where
    loop: "bloom_loop rnd (js_sub lat radius) (js_add lat radius) (js_sub lon radius)
      (js_add lon radius) (Date_of_string hp s) (Date_of_string hp e) n 0 [] (Suc k) = Some y"
    and y: "snd y = k"
    by (auto simp: generateBloomData_def getRandomInt_eq n_def Let_def
        split: option.splits sum.splits)
  from bloom_loop_advances [OF loop] y show False by simp
qed

lemma route_absent:
  assumes "q ''lat'' = None \<or> q ''lon'' = None \<or> q ''radius'' = None
    \<or> q ''startDate'' = None \<or> q ''endDate'' = None"
  shows "bloom_data_route hp rnd q k = Some (Inr missing_parameters, k)"
  using assms by (auto simp: bloom_data_route_def split: option.splits)

lemma route_empty:
  assumes "q ''lat'' = Some [] \<or> q ''lon'' = Some [] \<or> q ''radius'' = Some []
    \<or> q ''startDate'' = Some [] \<or> q ''endDate'' = Some []"
  shows "bloom_data_route hp rnd q k = Some (Inr missing_parameters, k)"
  using assms by (auto simp: bloom_data_route_def falsy_def split: option.splits)

lemma route_present:
  assumes "q ''lat'' = Some lat" "q ''lon'' = Some lon" "q ''radius'' = Some radius"
    "q ''startDate'' = Some sd" "q ''endDate'' = Some ed"
    and "lat \<noteq> []" "lon \<noteq> []" "radius \<noteq> []" "sd \<noteq> []" "ed \<noteq> []"
  shows "bloom_data_route hp rnd q k =
     (if isNaN (parseFloat lat) \<or> isNaN (parseFloat lon) \<or> isNaN (parseFloat radius)
      then Some (Inr invalid_parameters, k)
      else (case generateBloomData hp rnd (parseFloat lat) (parseFloat lon) (parseFloat radius)
                   sd ed k of
              None \<Rightarrow> None
            | Some (Inl err, k1) \<Rightarrow> Some (Inl err, k1)
            | Some (Inr data, k1) \<Rightarrow> Some (Inr \<lparr>status = 200, body = DataBody data\<rparr>, k1)))"
  using assms by (simp add: bloom_data_route_def falsy_def Let_def)

lemma parseFloat_abc: "parseFloat ''abc'' = NaN"
  by (simp add: parseFloat_def is_space_def unsigned_literal_def is_digit_def)

lemma parseFloat_examples:
  "parseFloat ''10'' = Num 10" "parseFloat ''20'' = Num 20" "parseFloat ''2'' = Num 2"
  by (simp_all add: parseFloat_def is_space_def unsigned_literal_def is_digit_def
      digits_value_def digit_val_def scale10_def exponent_part_def js_number_small)

text \<open>
  C7. A request that lacks one of \<open>lat\<close>, \<open>lon\<close>, \<open>radius\<close>, \<open>startDate\<close> and \<open>endDate\<close> is
  answered with status 400 and the message for missing parameters. The generator is
  not run: the handler returns with the random source where it was, and every run of
  the generator draws from it.
\<close>

theorem missing_parameter_rejected:
  assumes "q ''lat'' = None \<or> q ''lon'' = None \<or> q ''radius'' = None
    \<or> q ''startDate'' = None \<or> q ''endDate'' = None"
  shows "bloom_data_route hp rnd q k =
      Some (Inr \<lparr>status = 400,
                 body = ErrorBody
                   ''Missing required query parameters. Required: lat, lon, radius, startDate, endDate.''\<rparr>,
            k)
    \<and> (\<forall>a b c s e r. generateBloomData hp rnd a b c s e k \<noteq> Some (r, k))"
  using route_absent [OF assms] generateBloomData_draws
  by (simp add: missing_parameters_def)

theorem missing_parameter_rejected_witness:
  "[''lon'' \<mapsto> ''20'', ''radius'' \<mapsto> ''2'', ''startDate'' \<mapsto> ''2025-03-01'',
      ''endDate'' \<mapsto> ''2025-05-31''] ''lat'' = None
   \<and> bloom_data_route (\<lambda>_. NaN) (\<lambda>_. 1 / 2)
        [''lon'' \<mapsto> ''20'', ''radius'' \<mapsto> ''2'', ''startDate'' \<mapsto> ''2025-03-01'',
         ''endDate'' \<mapsto> ''2025-05-31''] 0 =
      Some (Inr \<lparr>status = 400,
                 body = ErrorBody
                   ''Missing required query parameters. Required: lat, lon, radius, startDate, endDate.''\<rparr>,
            0)"
proof -
  have "[''lon'' \<mapsto> ''20'', ''radius'' \<mapsto> ''2'', ''startDate'' \<mapsto> ''2025-03-01'',
      ''endDate'' \<mapsto> ''2025-05-31''] ''lat'' = None" by simp
  then show ?thesis
    using missing_parameter_rejected [of "[''lon'' \<mapsto> ''20'', ''radius'' \<mapsto> ''2'',
      ''startDate'' \<mapsto> ''2025-03-01'', ''endDate'' \<mapsto> ''2025-05-31'']" "\<lambda>_. NaN" "\<lambda>_. 1 / 2" 0]
    by blast
qed

text \<open>
  C10. A parameter that is present with the empty string as its value is answered as
  an absent one is: status 400 and the message for missing parameters, whatever the
  other parameters are.
\<close>

theorem empty_parameter_is_missing:
  assumes "p = ''lat'' \<or> p = ''lon'' \<or> p = ''radius'' \<or> p = ''startDate'' \<or> p = ''endDate''"
    and "q p = Some []"
  shows "bloom_data_route hp rnd q k =
      Some (Inr \<lparr>status = 400,
                 body = ErrorBody
                   ''Missing required query parameters. Required: lat, lon, radius, startDate, endDate.''\<rparr>,
            k)
    \<and> bloom_data_route hp rnd (q(p := None)) k = bloom_data_route hp rnd q k"
proof -
  from assms have "q ''lat'' = Some [] \<or> q ''lon'' = Some [] \<or> q ''radius'' = Some []
    \<or> q ''startDate'' = Some [] \<or> q ''endDate'' = Some []" by blast
  then have present: "bloom_data_route hp rnd q k = Some (Inr missing_parameters, k)"
    by (rule route_empty)
  from assms(1) have "(q(p := None)) ''lat'' = None \<or> (q(p := None)) ''lon'' = None
    \<or> (q(p := None)) ''radius'' = None \<or> (q(p := None)) ''startDate'' = None
    \<or> (q(p := None)) ''endDate'' = None" by auto
  then have "bloom_data_route hp rnd (q(p := None)) k = Some (Inr missing_parameters, k)"
    by (rule route_absent)
  with present show ?thesis by (simp add: missing_parameters_def)
qed

theorem empty_parameter_is_missing_witness:
  "[''lat'' \<mapsto> ''10'', ''lon'' \<mapsto> ''20'', ''radius'' \<mapsto> [], ''startDate'' \<mapsto> ''2025-03-01'',
      ''endDate'' \<mapsto> ''2025-05-31''] ''radius'' = Some []
   \<and> bloom_data_route (\<lambda>_. NaN) (\<lambda>_. 1 / 2)
        [''lat'' \<mapsto> ''10'', ''lon'' \<mapsto> ''20'', ''radius'' \<mapsto> [], ''startDate'' \<mapsto> ''2025-03-01'',
         ''endDate'' \<mapsto> ''2025-05-31''] 0 =
      Some (Inr \<lparr>status = 400,
                 body = ErrorBody
                   ''Missing required query parameters. Required: lat, lon, radius, startDate, endDate.''\<rparr>,
            0)"
proof -
  have "[''lat'' \<mapsto> ''10'', ''lon'' \<mapsto> ''20'', ''radius'' \<mapsto> [], ''startDate'' \<mapsto> ''2025-03-01'',
      ''endDate'' \<mapsto> ''2025-05-31''] ''radius'' = Some []" by simp
  then show ?thesis
    using empty_parameter_is_missing [of "''radius''" "[''lat'' \<mapsto> ''10'', ''lon'' \<mapsto> ''20'',
      ''radius'' \<mapsto> [], ''startDate'' \<mapsto> ''2025-03-01'', ''endDate'' \<mapsto> ''2025-05-31'']"
      "\<lambda>_. NaN" "\<lambda>_. 1 / 2" 0]
    by blast
qed

text \<open>
  C8, as amended. When all five parameters are present and not empty, the request is answered
  with status 400 and the message for invalid geographic parameters if and only if
  \<open>parseFloat\<close> gives \<open>NaN\<close> for \<open>lat\<close>, \<open>lon\<close> or \<open>radius\<close>; otherwise the generator runs
  on the three numbers and a response, if there is one, has status 200 and carries
  the collection.
\<close>

theorem non_numeric_parameter_rejected:
  assumes "q ''lat'' = Some lat" "q ''lon'' = Some lon" "q ''radius'' = Some radius"
    "q ''startDate'' = Some sd" "q ''endDate'' = Some ed"
    and "lat \<noteq> []" "lon \<noteq> []" "radius \<noteq> []" "sd \<noteq> []" "ed \<noteq> []"
  shows "if isNaN (parseFloat lat) \<or> isNaN (parseFloat lon) \<or> isNaN (parseFloat radius)
    then bloom_data_route hp rnd q k =
        Some (Inr \<lparr>status = 400,
                   body = ErrorBody
                     ''Invalid geographic parameters. lat, lon, and radius must be numbers.''\<rparr>,
              k)
    else bloom_data_route hp rnd q k =
        (case generateBloomData hp rnd (parseFloat lat) (parseFloat lon) (parseFloat radius)
                sd ed k of
           None \<Rightarrow> None
         | Some (Inl err, k1) \<Rightarrow> Some (Inl err, k1)
         | Some (Inr data, k1) \<Rightarrow> Some (Inr \<lparr>status = 200, body = DataBody data\<rparr>, k1))
      \<and> bloom_data_route hp rnd q k \<noteq>
        Some (Inr \<lparr>status = 400,
                   body = ErrorBody
                     ''Invalid geographic parameters. lat, lon, and radius must be numbers.''\<rparr>,
              k)"
  unfolding route_present [OF assms, of hp rnd k]
  using generateBloomData_draws [of hp rnd "parseFloat lat" "parseFloat lon" "parseFloat radius"
      sd ed k]
  by (auto simp: invalid_parameters_def split: option.splits sum.splits)

theorem non_numeric_parameter_rejected_witness:
  "bloom_data_route (\<lambda>_. NaN) (\<lambda>_. 1 / 2)
      [''lat'' \<mapsto> ''abc'', ''lon'' \<mapsto> ''0'', ''radius'' \<mapsto> ''1'', ''startDate'' \<mapsto> ''2025-03-01'',
       ''endDate'' \<mapsto> ''2025-05-31''] 0 =
     Some (Inr \<lparr>status = 400,
                body = ErrorBody
                  ''Invalid geographic parameters. lat, lon, and radius must be numbers.''\<rparr>,
           0)
   \<and> (\<exists>data k1. bloom_data_route (\<lambda>_. NaN) (\<lambda>_. 1 / 2)
      [''lat'' \<mapsto> ''10'', ''lon'' \<mapsto> ''20'', ''radius'' \<mapsto> ''2'', ''startDate'' \<mapsto> ''2025-03-01'',
       ''endDate'' \<mapsto> ''2025-05-31''] 0 = Some (Inr \<lparr>status = 200, body = DataBody data\<rparr>, k1))"
proof -
  let ?bad = "[''lat'' \<mapsto> ''abc'', ''lon'' \<mapsto> ''0'', ''radius'' \<mapsto> ''1'',
    ''startDate'' \<mapsto> ''2025-03-01'', ''endDate'' \<mapsto> ''2025-05-31'']"
  let ?good = "[''lat'' \<mapsto> ''10'', ''lon'' \<mapsto> ''20'', ''radius'' \<mapsto> ''2'',
    ''startDate'' \<mapsto> ''2025-03-01'', ''endDate'' \<mapsto> ''2025-05-31'']"
  have "bloom_data_route (\<lambda>_. NaN) (\<lambda>_. 1 / 2) ?bad 0 =
     Some (Inr \<lparr>status = 400,
                body = ErrorBody
                  ''Invalid geographic parameters. lat, lon, and radius must be numbers.''\<rparr>,
           0)"
    using non_numeric_parameter_rejected [of ?bad "''abc''" "''0''" "''1''" "''2025-03-01''"
        "''2025-05-31''" "\<lambda>_. NaN" "\<lambda>_. 1 / 2" 0]
    by (simp add: parseFloat_abc)
  moreover have ud: "unit_draws (\<lambda>_. 1 / 2)" by (simp add: unit_draws_const)
  from example_request [OF ud, of "\<lambda>_. NaN" "Num 10" "Num 20" "Num 2" 0]
  obtain fc k1 where "generateBloomData (\<lambda>_. NaN) (\<lambda>_. 1 / 2) (Num 10) (Num 20) (Num 2)
        ''2025-03-01'' ''2025-05-31'' 0 = Some (Inr fc, k1)" by blast
  then have "bloom_data_route (\<lambda>_. NaN) (\<lambda>_. 1 / 2) ?good 0
      = Some (Inr \<lparr>status = 200, body = DataBody fc\<rparr>, k1)"
    using non_numeric_parameter_rejected [of ?good "''10''" "''20''" "''2''" "''2025-03-01''"
        "''2025-05-31''" "\<lambda>_. NaN" "\<lambda>_. 1 / 2" 0]
    by (simp add: parseFloat_examples)
  ultimately show ?thesis by blast
qed

text \<open>
  C8 as stated asks only that the five parameters are present. A request with
  \<open>lat=\<close>, the empty string, has all five and a \<open>lat\<close> that \<open>parseFloat\<close> reads as \<open>NaN\<close>,
  and is answered with the message for missing parameters, not with the one for
  invalid geographic parameters: the test for missing parameters comes first and
  takes the empty string for a missing one.
\<close>

theorem non_numeric_parameter_rejected_counterexample:
  "[''lat'' \<mapsto> [], ''lon'' \<mapsto> ''0'', ''radius'' \<mapsto> ''1'', ''startDate'' \<mapsto> ''2025-03-01'',
      ''endDate'' \<mapsto> ''2025-05-31''] ''lat'' = Some []
   \<and> isNaN (parseFloat [])
   \<and> bloom_data_route (\<lambda>_. NaN) (\<lambda>_. 1 / 2)
        [''lat'' \<mapsto> [], ''lon'' \<mapsto> ''0'', ''radius'' \<mapsto> ''1'', ''startDate'' \<mapsto> ''2025-03-01'',
         ''endDate'' \<mapsto> ''2025-05-31''] 0 =
      Some (Inr \<lparr>status = 400,
                 body = ErrorBody
                   ''Missing required query parameters. Required: lat, lon, radius, startDate, endDate.''\<rparr>,
            0)
   \<and> bloom_data_route (\<lambda>_. NaN) (\<lambda>_. 1 / 2)
        [''lat'' \<mapsto> [], ''lon'' \<mapsto> ''0'', ''radius'' \<mapsto> ''1'', ''startDate'' \<mapsto> ''2025-03-01'',
         ''endDate'' \<mapsto> ''2025-05-31''] 0 \<noteq>
      Some (Inr \<lparr>status = 400,
                 body = ErrorBody
                   ''Invalid geographic parameters. lat, lon, and radius must be numbers.''\<rparr>,
            0)"
proof -
  let ?q = "[''lat'' \<mapsto> [], ''lon'' \<mapsto> ''0'', ''radius'' \<mapsto> ''1'',
    ''startDate'' \<mapsto> ''2025-03-01'', ''endDate'' \<mapsto> ''2025-05-31'']"
  have lat: "?q ''lat'' = Some []" by simp
  then have "bloom_data_route (\<lambda>_. NaN) (\<lambda>_. 1 / 2) ?q 0 = Some (Inr missing_parameters, 0)"
    by (intro route_empty) simp
  moreover have "isNaN (parseFloat [])" by (simp add: parseFloat_def)
  ultimately show ?thesis using lat by (simp add: missing_parameters_def)
qed

text \<open>
  C2. A start or end date that the host cannot parse makes the generator throw: the
  date of the first observation is invalid, and \<open>toISOString\<close> raises a \<open>RangeError\<close> on
  it. Here at \<open>generateBloomData(10, 20, 2, "abc", "2025-05-31")\<close>, on a host whose parser
  rejects \<open>abc\<close>, and at the request that passes these values on, where the error
  escapes the handler.
\<close>

theorem unparseable_date_throws:
  "generateBloomData (\<lambda>_. NaN) (\<lambda>_. 1 / 2) (Num 10) (Num 20) (Num 2) ''abc'' ''2025-05-31'' 0
     = Some (Inl RangeError, 7)
   \<and> bloom_data_route (\<lambda>_. NaN) (\<lambda>_. 1 / 2)
        [''lat'' \<mapsto> ''10'', ''lon'' \<mapsto> ''20'', ''radius'' \<mapsto> ''2'', ''startDate'' \<mapsto> ''abc'',
         ''endDate'' \<mapsto> ''2025-05-31''] 0
     = Some (Inl RangeError, 7)"
proof -
  have ud: "unit_draws (\<lambda>_. 1 / 2)" by (simp add: unit_draws_const)
  have "getTime (Date_of_string (\<lambda>_. NaN) ''abc'') = NaN"
    by (simp add: Date_of_string_def Date_parse_def calendar_date_def)
  then have "isNaN (getTime (Date_of_string (\<lambda>_. NaN) ''abc''))
      \<or> isNaN (getTime (Date_of_string (\<lambda>_. NaN) ''2025-05-31''))" by simp
  from generateBloomData_invalid [OF ud this]
  have gen: "generateBloomData (\<lambda>_. NaN) (\<lambda>_. 1 / 2) (Num 10) (Num 20) (Num 2) ''abc''
      ''2025-05-31'' 0 = Some (Inl RangeError, 7)" by simp
  have "bloom_data_route (\<lambda>_. NaN) (\<lambda>_. 1 / 2)
        [''lat'' \<mapsto> ''10'', ''lon'' \<mapsto> ''20'', ''radius'' \<mapsto> ''2'', ''startDate'' \<mapsto> ''abc'',
         ''endDate'' \<mapsto> ''2025-05-31''] 0
     = Some (Inl RangeError, 7)"
    by (subst route_present [of _ "''10''" "''20''" "''2''" "''abc''" "''2025-05-31''"])
      (simp_all add: parseFloat_examples gen)
  with gen show ?thesis by simp
qed




end
